theory Spec2Isabelle
  imports Complex_Main "HOL-Library.Sublist"
begin

section \<open>ClipDeck: a session window mirrored onto button grids\<close>

text \<open>
  The development embeds the two programs of the repository: the control surface
  \<^verbatim>\<open>ClipDeck_CS/clipdeck_cs.py\<close> (session side) and \<^verbatim>\<open>clipdeck.py\<close> (hardware side).
  Python integers are \<^typ>\<open>int\<close>, strings are \<^typ>\<open>string\<close>, the attributes of
  \<^verbatim>\<open>self\<close> and the per-window dictionaries are records that the handlers take and return.
  Clock readings, clip positions and clip lengths are Python floats in the source; here they
  are exact rationals, so rounding, infinities and NaN are not represented.
\<close>

subsection \<open>OSC payloads and Python built-ins\<close>

text \<open>
  An OSC argument as python-osc hands it to a handler. Integers and strings are the
  payloads the two programs send each other; other OSC types are not represented.
\<close>

datatype osc_arg = OInt int | OStr string

datatype osc_msg = Msg string "osc_arg list"

datatype py_error = ValueError | IndexError | ZeroDivisionError | AttributeError

definition is_digit :: "char \<Rightarrow> bool" where
  "is_digit c = (48 \<le> (of_char c :: nat) \<and> (of_char c :: nat) \<le> 57)"

definition is_space :: "char \<Rightarrow> bool" where
  "is_space c =
     ((of_char c :: nat) = 32
      \<or> (9 \<le> (of_char c :: nat) \<and> (of_char c :: nat) \<le> 13)
      \<or> (28 \<le> (of_char c :: nat) \<and> (of_char c :: nat) \<le> 31))"

text \<open>
  The digits of a decimal literal, most significant first, folded into \<open>acc\<close>. A single
  underscore is accepted between two digits, as Python's \<^verbatim>\<open>int\<close> does.
\<close>

fun digits_val :: "nat \<Rightarrow> string \<Rightarrow> nat option" where
  "digits_val acc [] = Some acc"
| "digits_val acc (c # cs) =
     (if is_digit c then digits_val (acc * 10 + ((of_char c :: nat) - 48)) cs
      else if c = CHR ''_'' \<and> cs \<noteq> [] \<and> is_digit (hd cs) then digits_val acc cs
      else None)"

definition strip :: "string \<Rightarrow> string" where
  "strip s = rev (dropWhile is_space (rev (dropWhile is_space s)))"

text \<open>
  \<^verbatim>\<open>int(s)\<close> for a string: surrounding whitespace, an optional sign, then digits.
  \<open>None\<close> stands for the \<^verbatim>\<open>ValueError\<close> Python raises.
\<close>

definition int_of_string :: "string \<Rightarrow> int option" where
  "int_of_string s =
     (case strip s of
        [] \<Rightarrow> None
      | c # cs \<Rightarrow>
          (let body = (if c = CHR ''-'' \<or> c = CHR ''+'' then cs else c # cs)
           in if body = [] \<or> \<not> is_digit (hd body) then None
              else (case digits_val 0 body of
                      None \<Rightarrow> None
                    | Some n \<Rightarrow> Some (if c = CHR ''-'' then - int n else int n))))"

text \<open>\<^verbatim>\<open>int(arg)\<close> on an OSC argument.\<close>

definition py_int :: "osc_arg \<Rightarrow> py_error + int" where
  "py_int a =
     (case a of
        OInt i \<Rightarrow> Inr i
      | OStr s \<Rightarrow> (case int_of_string s of None \<Rightarrow> Inl ValueError | Some i \<Rightarrow> Inr i))"

text \<open>
  \<^verbatim>\<open>xs[i]\<close> as Python evaluates it: \<open>i\<close> from \<open>0\<close> up to the length reads forwards, \<open>i\<close> from
  \<open>-1\<close> down to minus the length reads backwards from the end, anything else is an
  \<^verbatim>\<open>IndexError\<close>.
\<close>

definition py_index :: "'a list \<Rightarrow> int \<Rightarrow> py_error + 'a" where
  "py_index xs i =
     (if 0 \<le> i \<and> i < int (length xs) then Inr (xs ! nat i)
      else if i < 0 \<and> - int (length xs) \<le> i then Inr (xs ! nat (int (length xs) + i))
      else Inl IndexError)"

definition endswith :: "string \<Rightarrow> string \<Rightarrow> bool" where
  "endswith s suf = suffix suf s"

text \<open>\<^verbatim>\<open>s.replace(old, '')\<close>: every non-overlapping occurrence of \<open>old\<close>, left to right, is removed.\<close>

function str_remove :: "string \<Rightarrow> string \<Rightarrow> string" where
  "str_remove old [] = []"
| "str_remove old (c # cs) =
     (if old \<noteq> [] \<and> prefix old (c # cs)
      then str_remove old (drop (length old) (c # cs))
      else c # str_remove old cs)"
  by pat_completeness auto
termination
  by (relation "measure (\<lambda>(old, s). length s)") auto

subsection \<open>The session: tracks, scenes, clip slots\<close>

text \<open>
  What the control surface reads from Live's object model: \<^verbatim>\<open>song.tracks\<close>, each track's
  \<^verbatim>\<open>clip_slots\<close>, a slot's clip (\<^verbatim>\<open>has_clip\<close> is \<open>Some\<close>), and \<^verbatim>\<open>len(song.scenes)\<close>.
\<close>

record clip =
  name :: string
  color :: int
  is_playing :: bool
  is_triggered :: bool
  playing_position :: rat
  length_clip :: rat

record track =
  clip_slots :: "clip option list"

record song =
  tracks :: "track list"
  scenes :: nat

subsection \<open>The control surface's state\<close>

text \<open>The two calls that change the session: \<^verbatim>\<open>clip_slot.fire()\<close> and \<^verbatim>\<open>track.stop_all_clips()\<close>.\<close>

datatype live_call = Fire int int | StopAllClips int

record cs_state =
  display_order :: int
  h_offset :: int
  initial_h_offset :: int
  v_offset :: int
  config_received :: bool
  debug_mode :: bool
  debug_client :: "int option"
  osc_send_port :: int
  last_applied_h_offset :: int
  last_applied_v_offset :: int
  structural_mismatch :: bool
  session_ring :: "int \<times> int"
  sent :: "(int \<times> osc_msg) list"
  live_calls :: "live_call list"

definition num_tracks :: int where
  "num_tracks = 8"

definition num_scenes :: int where
  "num_scenes = 4"

definition OSC_BASE_SEND_PORT :: int where
  "OSC_BASE_SEND_PORT = 9000"

text \<open>The attributes \<^verbatim>\<open>__init__\<close> sets, for a control surface with the given display order.\<close>

definition cs_init :: "int \<Rightarrow> cs_state" where
  "cs_init order =
     \<lparr> display_order = order, h_offset = 0, initial_h_offset = 0, v_offset = 0,
       config_received = False, debug_mode = False, debug_client = None,
       osc_send_port = OSC_BASE_SEND_PORT + order * 10,
       last_applied_h_offset = - 1, last_applied_v_offset = - 1,
       structural_mismatch = False, session_ring = (0, 0), sent = [], live_calls = [] \<rparr>"

text \<open>
  \<^verbatim>\<open>_osc_send\<close>: the message goes to the send port and, in debug mode with a debug client,
  to the debug port as well. \<open>sent\<close> records (port, message) in sending order.
\<close>

definition osc_send :: "string \<Rightarrow> osc_arg list \<Rightarrow> cs_state \<Rightarrow> cs_state" where
  "osc_send address args s =
     (let s1 = s\<lparr>sent := sent s @ [(osc_send_port s, Msg address args)]\<rparr>
      in (case debug_client s of
            Some p \<Rightarrow> if debug_mode s then s1\<lparr>sent := sent s1 @ [(p, Msg address args)]\<rparr> else s1
          | None \<Rightarrow> s1))"

text \<open>
  \<^verbatim>\<open>_session_ring.set_offsets\<close> followed by the two \<^verbatim>\<open>_last_applied\<close> assignments. The ring
  belongs to the host framework; only the offsets handed to it are recorded.
\<close>

definition apply_offsets :: "cs_state \<Rightarrow> cs_state" where
  "apply_offsets s =
     s\<lparr>session_ring := (h_offset s, v_offset s),
       last_applied_h_offset := h_offset s,
       last_applied_v_offset := v_offset s\<rparr>"

subsection \<open>The snapshot of the visible window\<close>

text \<open>\<^verbatim>\<open>int(x)\<close> on a float truncates towards zero.\<close>

definition py_trunc :: "rat \<Rightarrow> int" where
  "py_trunc x = (if 0 \<le> x then \<lfloor>x\<rfloor> else \<lceil>x\<rceil>)"

function str_of_nat :: "nat \<Rightarrow> string" where
  "str_of_nat n =
     (if n < 10 then [char_of (48 + n)]
      else str_of_nat (n div 10) @ [char_of (48 + n mod 10)])"
  by pat_completeness auto
termination
  by (relation "measure id") auto

definition str_of_int :: "int \<Rightarrow> string" where
  "str_of_int i = (if i < 0 then CHR ''-'' # str_of_nat (nat (- i)) else str_of_nat (nat i))"

text \<open>
  A cell of the snapshot is built in the source as the f-string \<^verbatim>\<open>"{name}|{color}|{code}"\<close>.
  Here the three parts are kept apart until \<open>format_cell\<close> joins them.
\<close>

type_synonym cell = "string \<times> int \<times> int"

definition format_cell :: "cell \<Rightarrow> string" where
  "format_cell c =
     (case c of (label, col, code) \<Rightarrow> label @ ''|'' @ str_of_int col @ ''|'' @ str_of_int code)"

text \<open>The first error of a list of results, or all the values.\<close>

fun collect :: "(py_error + 'a) list \<Rightarrow> py_error + 'a list" where
  "collect [] = Inr []"
| "collect (Inl e # _) = Inl e"
| "collect (Inr x # rs) = (case collect rs of Inl e \<Rightarrow> Inl e | Inr xs \<Rightarrow> Inr (x # xs))"

text \<open>\<^verbatim>\<open>any(slot.has_clip and (slot.clip.is_playing or slot.clip.is_triggered) for slot in ...)\<close>\<close>

definition any_active :: "clip option list \<Rightarrow> bool" where
  "any_active slots =
     list_ex (\<lambda>slot. case slot of None \<Rightarrow> False | Some c \<Rightarrow> is_playing c \<or> is_triggered c) slots"

text \<open>One entry of the \<^verbatim>\<open>track_is_playing\<close> dictionary, for a window column.\<close>

definition track_is_playing_at :: "song \<Rightarrow> int \<Rightarrow> nat \<Rightarrow> py_error + bool" where
  "track_is_playing_at sg h track_index =
     (let actual_track_idx = h + int track_index
      in if actual_track_idx < int (length (tracks sg))
         then (case py_index (tracks sg) actual_track_idx of
                 Inl e \<Rightarrow> Inl e
               | Inr t \<Rightarrow> Inr (any_active (clip_slots t)))
         else Inr False)"

definition progress_val :: "rat \<Rightarrow> rat \<Rightarrow> int" where
  "progress_val position len =
     (let raw_progress = position / len
      in max 0 (min (py_trunc (raw_progress * 16)) 15) + 1)"

text \<open>The body of the inner loop: the cell for one window row and column.\<close>

definition cell_at :: "song \<Rightarrow> bool list \<Rightarrow> int \<Rightarrow> int \<Rightarrow> nat \<Rightarrow> nat \<Rightarrow> py_error + cell" where
  "cell_at sg track_is_playing h v scene_index track_index =
     (let actual_scene_idx = v + int scene_index;
          actual_track_idx = h + int track_index
      in if actual_track_idx \<ge> int (length (tracks sg)) \<or> actual_scene_idx \<ge> int (scenes sg)
         then Inr (''X'', 3276800, - 4)
         else
           (case py_index (tracks sg) actual_track_idx of
              Inl e \<Rightarrow> Inl e
            | Inr t \<Rightarrow>
                (case py_index (clip_slots t) actual_scene_idx of
                   Inl e \<Rightarrow> Inl e
                 | Inr clip_slot \<Rightarrow>
                     (case clip_slot of
                        Some c \<Rightarrow>
                          if is_playing c then
                            (if length_clip c = 0 then Inl ZeroDivisionError
                             else Inr (name c, color c,
                                       progress_val (playing_position c) (length_clip c)))
                          else if is_triggered c then Inr (name c, color c, - 1)
                          else if track_is_playing ! track_index
                            then Inr (name c, color c, - 2)
                            else Inr (name c, color c, - 3)
                      | None \<Rightarrow>
                          if \<not> track_is_playing ! track_index
                          then Inr ('' '', 0, - 3)
                          else Inr ('' '', 0, - 2)))))"

text \<open>
  The two loops of \<^verbatim>\<open>_prepare_and_send_clip_info\<close>: first the \<^verbatim>\<open>track_is_playing\<close> entries
  of the 8 columns, then the 4 rows of 8 cells, scene outer and track inner. An exception
  anywhere leaves the method through its \<^verbatim>\<open>except\<close> with nothing sent.
\<close>

definition clip_info_cells :: "song \<Rightarrow> int \<Rightarrow> int \<Rightarrow> py_error + cell list" where
  "clip_info_cells sg h v =
     (case collect (map (track_is_playing_at sg h) [0..<8]) of
        Inl e \<Rightarrow> Inl e
      | Inr track_is_playing \<Rightarrow>
          collect (concat (map (\<lambda>scene_index.
                     map (\<lambda>track_index. cell_at sg track_is_playing h v scene_index track_index)
                         [0..<8]) [0..<4])))"

definition prepare_and_send_clip_info :: "song \<Rightarrow> cs_state \<Rightarrow> cs_state" where
  "prepare_and_send_clip_info sg s =
     (if \<not> config_received s then s
      else if h_offset s \<ge> int (length (tracks sg)) then s
      else (case clip_info_cells sg (h_offset s) (v_offset s) of
              Inl e \<Rightarrow> s
            | Inr cells \<Rightarrow>
                osc_send ''/clip_info'' (OInt (display_order s) # map (OStr \<circ> format_cell) cells) s))"

text \<open>\<^verbatim>\<open>_check_structural_validity\<close>: the new state and the returned flag.\<close>

definition check_structural_validity :: "song \<Rightarrow> cs_state \<Rightarrow> cs_state \<times> bool" where
  "check_structural_validity sg s =
     (let available_tracks = int (length (tracks sg))
      in if h_offset s \<ge> available_tracks then
           (if \<not> structural_mismatch s
            then (osc_send ''/structural_mismatch'' [OInt (display_order s), OInt 1]
                    (s\<lparr>structural_mismatch := True\<rparr>), False)
            else (s, False))
         else
           (if structural_mismatch s
            then (osc_send ''/structural_mismatch'' [OInt (display_order s), OInt 0]
                    (s\<lparr>structural_mismatch := False\<rparr>), True)
            else (s, True)))"

subsection \<open>Triggering a slot\<close>

text \<open>
  \<^verbatim>\<open>_handle_trigger_clip\<close>. The slot is read from \<open>sg\<close>; what \<^verbatim>\<open>fire\<close> and
  \<^verbatim>\<open>stop_all_clips\<close> do to the session is the host's business, so the session as it reads
  afterwards is the separate argument \<open>sg_after\<close>. An out-of-range \<^verbatim>\<open>clip_slots\<close> read raises
  before anything has happened.
\<close>

definition handle_trigger_clip :: "song \<Rightarrow> song \<Rightarrow> int \<Rightarrow> int \<Rightarrow> cs_state \<Rightarrow> cs_state" where
  "handle_trigger_clip sg sg_after track_offset scene_offset s =
     (let track_index = h_offset s + track_offset;
          scene_index = v_offset s + scene_offset
      in if 0 \<le> track_index \<and> track_index < int (length (tracks sg))
            \<and> 0 \<le> scene_index \<and> scene_index < int (scenes sg)
         then
           (case py_index (tracks sg) track_index of
              Inl e \<Rightarrow> s
            | Inr t \<Rightarrow>
                (case py_index (clip_slots t) scene_index of
                   Inl e \<Rightarrow> s
                 | Inr clip_slot \<Rightarrow>
                     (let s1 = (case clip_slot of
                                  Some c \<Rightarrow> s\<lparr>live_calls := live_calls s @ [Fire track_index scene_index]\<rparr>
                                | None \<Rightarrow>
                                    (let track_is_playing = any_active (clip_slots t);
                                         s' = s\<lparr>live_calls := live_calls s @ [StopAllClips track_index]\<rparr>
                                     in osc_send ''/track_stopped''
                                          [OInt (display_order s), OInt track_offset,
                                           OInt (if track_is_playing then 1 else 0)] s'));
                          (s2, ok) = check_structural_validity sg_after s1
                      in if ok then prepare_and_send_clip_info sg_after s2 else s2)))
         else s)"

subsection \<open>The configuration handshake\<close>

text \<open>
  \<^verbatim>\<open>_osc_config_handler\<close>. The three conversions come first and may raise; the handler's
  \<^verbatim>\<open>except\<close> then leaves the state as it was.
\<close>

definition osc_config_handler :: "song \<Rightarrow> osc_arg list \<Rightarrow> cs_state \<Rightarrow> cs_state" where
  "osc_config_handler sg args s =
     (if length args \<ge> 2 then
        (case py_int (args ! 0) of
           Inl e \<Rightarrow> s
         | Inr order \<Rightarrow>
             (case py_int (args ! 1) of
                Inl e \<Rightarrow> s
              | Inr h \<Rightarrow>
                  (case (if length args \<ge> 3 then py_int (args ! 2) else Inr 0) of
                     Inl e \<Rightarrow> s
                   | Inr dbg \<Rightarrow>
                       (let dbg_mode = (dbg \<noteq> 0)
                        in if order = display_order s then
                             (let first_config = \<not> config_received s;
                                  s1 = (if first_config
                                        then s\<lparr>h_offset := h, initial_h_offset := h\<rparr> else s);
                                  s2 = s1\<lparr>config_received := True, debug_mode := dbg_mode\<rparr>;
                                  s3 = (if dbg_mode
                                        then s2\<lparr>debug_client := Some (osc_send_port s2 + 1000)\<rparr>
                                        else s2);
                                  s4 = (if first_config
                                           \<and> (h_offset s3 \<noteq> last_applied_h_offset s3
                                                \<or> v_offset s3 \<noteq> last_applied_v_offset s3)
                                        then prepare_and_send_clip_info sg (apply_offsets s3)
                                        else s3)
                              in osc_send ''/ablonline'' [OInt (display_order s4)] s4)
                           else s))))
      else s)"

subsection \<open>Scrolling\<close>

definition scroll_direction :: "string \<Rightarrow> string" where
  "scroll_direction direction =
     (if endswith direction ''-fast'' then str_remove ''-fast'' direction else direction)"

definition scroll_step :: "string \<Rightarrow> int" where
  "scroll_step direction = (if endswith direction ''-fast'' then 4 else 1)"

definition handle_scroll :: "song \<Rightarrow> string \<Rightarrow> cs_state \<Rightarrow> cs_state" where
  "handle_scroll sg direction0 s =
     (let step = scroll_step direction0;
          direction = scroll_direction direction0;
          old_h = h_offset s;
          old_v = v_offset s;
          s1 = (if direction = ''up'' then s\<lparr>v_offset := max 0 (v_offset s - step)\<rparr>
                else if direction = ''down'' then
                  (let max_offset = max 0 (int (scenes sg) - num_scenes)
                   in s\<lparr>v_offset := min max_offset (v_offset s + step)\<rparr>)
                else if direction = ''left'' then s\<lparr>h_offset := max 0 (h_offset s - step)\<rparr>
                else if direction = ''right'' then
                  (let max_h_offset = max 0 (int (length (tracks sg)) - num_tracks)
                   in s\<lparr>h_offset := min max_h_offset (h_offset s + step)\<rparr>)
                else if direction = ''reset'' then s\<lparr>h_offset := initial_h_offset s\<rparr>
                else s)
      in if h_offset s1 \<noteq> old_h \<or> v_offset s1 \<noteq> old_v then apply_offsets s1 else s1)"

text \<open>
  \<^verbatim>\<open>_osc_scroll_handler\<close>: the first argument is the direction. A missing argument does
  nothing; an argument that is not a string fails at \<^verbatim>\<open>endswith\<close>, before any assignment,
  and the handler's \<^verbatim>\<open>except\<close> swallows it.
\<close>

definition osc_scroll_handler :: "song \<Rightarrow> osc_arg list \<Rightarrow> cs_state \<Rightarrow> cs_state" where
  "osc_scroll_handler sg args s =
     (case args of
        [] \<Rightarrow> s
      | OStr direction # _ \<Rightarrow> handle_scroll sg direction s
      | OInt _ # _ \<Rightarrow> s)"



text \<open>Example data: a session of \<open>n\<close> tracks and \<open>m\<close> scenes with every slot empty.\<close>

definition empty_session :: "nat \<Rightarrow> nat \<Rightarrow> song" where
  "empty_session n m = \<lparr> tracks = replicate n \<lparr> clip_slots = replicate m None \<rparr>, scenes = m \<rparr>"

text \<open>
  What reaches the control surface, in order of arrival. Each event carries the session as
  the handler reads it; a trigger carries the session before and after the host acted.
\<close>

datatype cs_event =
    Scroll song "osc_arg list"
  | Config song "osc_arg list"
  | TriggerClip song song int int

fun cs_step :: "cs_state \<Rightarrow> cs_event \<Rightarrow> cs_state" where
  "cs_step s (Scroll sg args) = osc_scroll_handler sg args s"
| "cs_step s (Config sg args) = osc_config_handler sg args s"
| "cs_step s (TriggerClip sg sg_after track_offset scene_offset) =
     handle_trigger_clip sg sg_after track_offset scene_offset s"

definition cs_run :: "cs_event list \<Rightarrow> cs_state \<Rightarrow> cs_state" where
  "cs_run evs s = foldl cs_step s evs"

text \<open>
  The classification of a slot inside the session, as the specification words it: a playing
  clip reports \<open>clamp(floor((position/length) * 16), 0, 15) + 1\<close>, a triggered clip \<open>-1\<close>, and
  a stopped clip or an empty slot \<open>-2\<close> when some slot of the track is playing or triggered
  and \<open>-3\<close> otherwise. Playing is asked before triggered, triggered before the rest.
\<close>
definition slot_code :: "bool \<Rightarrow> clip option \<Rightarrow> int" where
  "slot_code track_active slot =
     (case slot of
        Some c \<Rightarrow>
          if is_playing c then max 0 (min \<lfloor>playing_position c / length_clip c * 16\<rfloor> 15) + 1
          else if is_triggered c then - 1
          else if track_active then - 2 else - 3
      | None \<Rightarrow> if track_active then - 2 else - 3)"

text \<open>
  A session as the host keeps it: every track has one clip slot per scene, and a playing
  clip has a length other than zero.
\<close>
definition well_formed :: "song \<Rightarrow> bool" where
  "well_formed sg =
     list_all (\<lambda>t. length (clip_slots t) = scenes sg
                 \<and> list_all (\<lambda>slot. case slot of None \<Rightarrow> True
                                | Some c \<Rightarrow> is_playing c \<longrightarrow> length_clip c \<noteq> 0) (clip_slots t))
       (tracks sg)"

text \<open>Example data: a clip halfway through its loop, in slot (track 2, scene 1) of an 8 by 4 session.\<close>
definition example_clip :: clip where
  "example_clip = \<lparr> name = ''A'', color = 255, is_playing = True, is_triggered = False,
                      playing_position = 2, length_clip = 4 \<rparr>"

definition example_session :: song where
  "example_session =
     (let e = \<lparr> clip_slots = [None, None, None, None] \<rparr>;
          t = \<lparr> clip_slots = [None, Some example_clip, None, None] \<rparr>
      in \<lparr> tracks = [e, e, t, e, e, e, e, e], scenes = 4 \<rparr>)"

section \<open>The hardware side\<close>

subsection \<open>Decks, per-window state records, renders and timers\<close>

text \<open>
  A StreamDeck as the program uses it: its serial number and \<^verbatim>\<open>key_count()\<close>. The device is
  taken to be connected, so \<^verbatim>\<open>get_serial_number\<close> and \<^verbatim>\<open>set_key_image\<close> do not fail.
\<close>

record deck =
  serial :: string
  key_count :: int

type_synonym rgb = "int \<times> int \<times> int"

text \<open>An entry of \<^verbatim>\<open>key_states\<close>: label, Ableton colour value, state code (a float in the source).\<close>

type_synonym key_state = "string \<times> int \<times> rat"

text \<open>The dictionary \<^verbatim>\<open>init_cs_state\<close> creates for a display order.\<close>

record cs_record =
  key_states :: "int \<rightharpoonup> key_state"
  stopped_keys :: "int set"
  last_ablonline :: rat
  waiting_cleared :: bool
  structural_mismatch_shown :: bool
  pressed_keys :: "int set"
  flash_until :: "int \<rightharpoonup> rat"
  menu_active :: bool
  ableton_offline :: bool

text \<open>
  A call of \<^verbatim>\<open>update_key_image\<close> that gets past its guard and composes an image: the deck,
  the key, label, colour, \<^verbatim>\<open>progress\<close>, \<^verbatim>\<open>background_color\<close> and \<^verbatim>\<open>flash\<close>. The overlay
  arguments (\<^verbatim>\<open>stopped_keys\<close>, \<^verbatim>\<open>scroll_mode\<close>, \<^verbatim>\<open>menu_active\<close>) only steer the drawing and are
  left out.
\<close>

record render_call =
  r_deck :: string
  r_key :: int
  r_label :: string
  r_color :: rgb
  r_progress :: "rat option"
  r_background :: "rgb option"
  r_flash :: bool

text \<open>
  The two kinds of \<^verbatim>\<open>threading.Timer\<close> callbacks, with the values their lambdas bind when
  they are created. The state dictionary is bound by reference, which is its display order
  here: a record, once created, is never replaced.
\<close>

datatype timer_action =
    StopRestore deck int int string rgb "rat option"
  | FlashRestore deck int int

text \<open>
  The module-level state: the deck manager's \<^verbatim>\<open>order_to_deck\<close> (a dictionary, kept in
  insertion order) and \<^verbatim>\<open>deck_states\<close>, the \<^verbatim>\<open>scroll_mode\<close> and the per-deck entries of
  \<^verbatim>\<open>current_config\<close>, the global \<^verbatim>\<open>debug_mode\<close>, and three logs: images composed, timers
  started (with their firing time), and messages sent (with their port).
\<close>

record hw =
  order_to_deck :: "(int \<times> deck) list"
  deck_states :: "int \<rightharpoonup> cs_record"
  scroll_mode :: string
  config_decks :: "(string \<times> int \<times> int) list"
  debug_mode_hw :: bool
  renders :: "render_call list"
  timers :: "(rat \<times> timer_action) list"
  osc_out :: "(int \<times> osc_msg) list"

definition FLASH_DURATION :: rat where
  "FLASH_DURATION = 2 / 10"

definition SCROLL_VERTICAL :: string where
  "SCROLL_VERTICAL = ''vertical''"

definition SCROLL_BOTH :: string where
  "SCROLL_BOTH = ''both''"

definition SCROLL_BOTH_RESET :: string where
  "SCROLL_BOTH_RESET = ''both-reset''"

definition KEY_BURGER :: int where
  "KEY_BURGER = 31"

definition KEY_BRIGHTNESS :: int where
  "KEY_BRIGHTNESS = 23"

definition KEY_ARROW_RIGHT :: int where
  "KEY_ARROW_RIGHT = 30"

definition KEY_ARROW_DOWN :: int where
  "KEY_ARROW_DOWN = 29"

definition KEY_ARROW_UP :: int where
  "KEY_ARROW_UP = 21"

definition KEY_ARROW_LEFT :: int where
  "KEY_ARROW_LEFT = 28"

definition OFFLINE_TIMEOUT :: rat where
  "OFFLINE_TIMEOUT = 2"

definition new_cs_record :: cs_record where
  "new_cs_record =
     \<lparr> key_states = Map.empty, stopped_keys = {}, last_ablonline = 0, waiting_cleared = False,
       structural_mismatch_shown = False, pressed_keys = {}, flash_until = Map.empty,
       menu_active = False, ableton_offline = True \<rparr>"

definition init_cs_state :: "int \<Rightarrow> hw \<Rightarrow> hw" where
  "init_cs_state order h =
     (case deck_states h order of
        None \<Rightarrow> h\<lparr>deck_states := (deck_states h)(order \<mapsto> new_cs_record)\<rparr>
      | Some _ \<Rightarrow> h)"

text \<open>\<^verbatim>\<open>get_cs_state\<close>: the record is created when it is missing, then returned.\<close>

definition get_cs_state :: "int \<Rightarrow> hw \<Rightarrow> cs_record \<times> hw" where
  "get_cs_state order h =
     (case deck_states h order of
        None \<Rightarrow> (new_cs_record, init_cs_state order h)
      | Some st \<Rightarrow> (st, h))"

definition get_deck_for_cs :: "int \<Rightarrow> hw \<Rightarrow> deck option" where
  "get_deck_for_cs order h = map_of (order_to_deck h) order"

definition get_active_display_orders :: "hw \<Rightarrow> int list" where
  "get_active_display_orders h = map fst (order_to_deck h)"

text \<open>Writing a mutated state dictionary back under its display order.\<close>

definition put_cs_state :: "int \<Rightarrow> cs_record \<Rightarrow> hw \<Rightarrow> hw" where
  "put_cs_state order st h = h\<lparr>deck_states := (deck_states h)(order \<mapsto> st)\<rparr>"

definition ableton_color_to_rgb :: "int \<Rightarrow> rgb" where
  "ableton_color_to_rgb color_value =
     ((color_value div 65536) mod 256, (color_value div 256) mod 256, color_value mod 256)"

text \<open>
  \<^verbatim>\<open>update_key_image\<close>: nothing is drawn without a deck or for a key the deck does not have.
\<close>

definition update_key_image ::
  "deck option \<Rightarrow> int \<Rightarrow> string \<Rightarrow> rgb \<Rightarrow> rat option \<Rightarrow> rgb option \<Rightarrow> bool
     \<Rightarrow> render_call list \<Rightarrow> render_call list" where
  "update_key_image d key label_text col progress background flash rs =
     (case d of
        None \<Rightarrow> rs
      | Some dk \<Rightarrow>
          if key < 0 \<or> key \<ge> key_count dk then rs
          else rs @ [\<lparr> r_deck = serial dk, r_key = key, r_label = label_text, r_color = col,
                       r_progress = progress, r_background = background, r_flash = flash \<rparr>])"

text \<open>\<^verbatim>\<open>send_osc_message\<close>: to the window's port, and to the debug port in debug mode.\<close>

definition send_osc_message :: "int \<Rightarrow> string \<Rightarrow> osc_arg list \<Rightarrow> hw \<Rightarrow> hw" where
  "send_osc_message order address args h =
     (let port = 9001 + order * 10;
          h1 = h\<lparr>osc_out := osc_out h @ [(port, Msg address args)]\<rparr>
      in if debug_mode_hw h then h1\<lparr>osc_out := osc_out h1 @ [(port + 1000, Msg address args)]\<rparr>
         else h1)"

text \<open>\<^verbatim>\<open>bool(arg)\<close> on an OSC argument.\<close>

definition py_bool :: "osc_arg \<Rightarrow> bool" where
  "py_bool a = (case a of OInt i \<Rightarrow> i \<noteq> 0 | OStr s \<Rightarrow> s \<noteq> [])"

subsection \<open>Snapshots arriving at the hardware side\<close>

text \<open>\<^verbatim>\<open>s.split(sep, maxsplit)\<close> for a one-character separator.\<close>

fun split_max :: "char \<Rightarrow> nat \<Rightarrow> string \<Rightarrow> string list" where
  "split_max sep 0 s = [s]"
| "split_max sep (Suc n) s =
     (if sep \<in> set s
      then takeWhile (\<lambda>c. c \<noteq> sep) s # split_max sep n (tl (dropWhile (\<lambda>c. c \<noteq> sep) s))
      else [s])"

text \<open>
  The triple a cell string yields: three parts, the second through \<^verbatim>\<open>int\<close>, the third through
  \<^verbatim>\<open>float\<close>. Python's \<^verbatim>\<open>float\<close> on a string is the parameter \<open>to_float\<close>; \<open>None\<close> from either
  conversion is the \<^verbatim>\<open>ValueError\<close> both branches of the handler catch.
\<close>

definition parse_cell :: "(string \<Rightarrow> rat option) \<Rightarrow> string \<Rightarrow> key_state option" where
  "parse_cell to_float info =
     (case split_max CHR ''|'' 2 info of
        [clip_name, clip_color, clip_progress] \<Rightarrow>
          (case int_of_string clip_color of
             None \<Rightarrow> None
           | Some clip_color_val \<Rightarrow>
               (case to_float clip_progress of
                  None \<Rightarrow> None
                | Some clip_progress_value \<Rightarrow> Some (clip_name, clip_color_val, clip_progress_value)))
      | _ \<Rightarrow> None)"

text \<open>The image a changed cell gets, by the sign and value of its state code.\<close>

definition render_new_state :: "deck \<Rightarrow> int \<Rightarrow> key_state \<Rightarrow> render_call list \<Rightarrow> render_call list" where
  "render_new_state dk i new_state rs =
     (case new_state of (clip_name, clip_color_val, clip_progress_value) \<Rightarrow>
        (let rgba_color = ableton_color_to_rgb clip_color_val
         in if clip_progress_value \<ge> 0 then
              (let fraction = clip_progress_value / 16;
                   fraction' = (if fraction = 0 then 1 else fraction)
               in update_key_image (Some dk) i clip_name rgba_color (Some fraction') None False rs)
            else if clip_progress_value = - 1 then
              update_key_image (Some dk) i clip_name rgba_color (Some (- 1)) None False rs
            else if clip_progress_value = - 3 then
              update_key_image (Some dk) i clip_name rgba_color (Some (- 2)) (Some (255, 0, 0)) False rs
            else
              update_key_image (Some dk) i clip_name rgba_color (Some (- 2)) None False rs))"

text \<open>Whether key \<open>i\<close> is held or still inside its flash interval at \<open>current_time\<close>.\<close>

definition flashing :: "cs_record \<Rightarrow> rat \<Rightarrow> int \<Rightarrow> bool" where
  "flashing st current_time i =
     (i \<in> pressed_keys st
      \<or> (case flash_until st i of None \<Rightarrow> False | Some t \<Rightarrow> current_time < t))"

text \<open>
  The body of the loop over \<^verbatim>\<open>enumerate(clip_data)\<close> for one cell with \<open>i < 32\<close>. A held or
  flashing key only has its cache entry replaced. Any other key is compared with its cache
  entry and, when different, stored and drawn. An element that is not a string has no
  \<^verbatim>\<open>split\<close>: the \<^verbatim>\<open>AttributeError\<close> leaves the handler.
\<close>

definition clip_info_cell ::
  "(string \<Rightarrow> rat option) \<Rightarrow> rat \<Rightarrow> deck \<Rightarrow> int \<Rightarrow> osc_arg
     \<Rightarrow> cs_record \<times> render_call list \<Rightarrow> py_error option \<times> cs_record \<times> render_call list" where
  "clip_info_cell to_float current_time dk i info acc =
     (case acc of (st, rs) \<Rightarrow>
        (case info of
           OInt _ \<Rightarrow> (Some AttributeError, st, rs)
         | OStr text \<Rightarrow>
             if flashing st current_time i then
               (case parse_cell to_float text of
                  None \<Rightarrow> (None, st, rs)
                | Some new_state \<Rightarrow> (None, st\<lparr>key_states := (key_states st)(i \<mapsto> new_state)\<rparr>, rs))
             else
               (case parse_cell to_float text of
                  None \<Rightarrow> (None, st, rs)
                | Some new_state \<Rightarrow>
                    if key_states st i \<noteq> Some new_state
                    then (None, st\<lparr>key_states := (key_states st)(i \<mapsto> new_state)\<rparr>,
                          render_new_state dk i new_state rs)
                    else (None, st, rs))))"

fun clip_info_loop ::
  "(string \<Rightarrow> rat option) \<Rightarrow> rat \<Rightarrow> deck \<Rightarrow> int \<Rightarrow> osc_arg list
     \<Rightarrow> cs_record \<times> render_call list \<Rightarrow> py_error option \<times> cs_record \<times> render_call list" where
  "clip_info_loop to_float current_time dk i [] acc = (None, acc)"
| "clip_info_loop to_float current_time dk i (info # rest) acc =
     (if i < 32 then
        (case clip_info_cell to_float current_time dk i info acc of
           (Some e, acc') \<Rightarrow> (Some e, acc')
         | (None, acc') \<Rightarrow> clip_info_loop to_float current_time dk (i + 1) rest acc')
      else clip_info_loop to_float current_time dk (i + 1) rest acc)"

text \<open>
  \<^verbatim>\<open>osc_clip_info_handler\<close>, at clock reading \<open>now\<close>. The result is the exception that left the
  handler, if any, and the state as the handler left it.
\<close>

definition osc_clip_info_handler ::
  "(string \<Rightarrow> rat option) \<Rightarrow> rat \<Rightarrow> osc_arg list \<Rightarrow> hw \<Rightarrow> py_error option \<times> hw" where
  "osc_clip_info_handler to_float now args h =
     (if length args < 2 then (None, h)
      else
        (case py_int (args ! 0) of
           Inl e \<Rightarrow> (Some e, h)
         | Inr order \<Rightarrow>
             (let clip_data = tl args
              in (case get_deck_for_cs order h of
                    None \<Rightarrow> (None, h)
                  | Some dk \<Rightarrow>
                      (let (st0, h1) = get_cs_state order h;
                           st1 = st0\<lparr>last_ablonline := now\<rparr>;
                           st2 = (if ableton_offline st1
                                  then st1\<lparr>ableton_offline := False, waiting_cleared := True\<rparr>
                                  else st1);
                           (err, st3, rs) = clip_info_loop to_float now dk 0 clip_data (st2, renders h1)
                       in (err, put_cs_state order st3 (h1\<lparr>renders := rs\<rparr>)))))))"

subsection \<open>Heartbeats and the other inbound messages\<close>

definition osc_ablonline_handler :: "rat \<Rightarrow> osc_arg list \<Rightarrow> hw \<Rightarrow> py_error option \<times> hw" where
  "osc_ablonline_handler now args h =
     (case (if args \<noteq> [] then py_int (args ! 0) else Inr 0) of
        Inl e \<Rightarrow> (Some e, h)
      | Inr order \<Rightarrow>
          (let (st0, h1) = get_cs_state order h;
               d = get_deck_for_cs order h1;
               st1 = st0\<lparr>last_ablonline := now\<rparr>;
               st2 = (if ableton_offline st1 then st1\<lparr>ableton_offline := False\<rparr> else st1)
           in if \<not> waiting_cleared st2 \<and> d \<noteq> None
              then (None, put_cs_state order (st2\<lparr>waiting_cleared := True\<rparr>)
                            (h1\<lparr>renders := update_key_image d 0 '''' (0, 0, 0) None None False
                                              (renders h1)\<rparr>))
              else (None, put_cs_state order st2 h1)))"

definition osc_structural_mismatch_handler :: "osc_arg list \<Rightarrow> hw \<Rightarrow> py_error option \<times> hw" where
  "osc_structural_mismatch_handler args h =
     (if length args < 2 then (None, h)
      else
        (case py_int (args ! 0) of
           Inl e \<Rightarrow> (Some e, h)
         | Inr order \<Rightarrow>
             (let shown = py_bool (args ! 1);
                  (st0, h1) = get_cs_state order h;
                  d = get_deck_for_cs order h1;
                  st1 = st0\<lparr>structural_mismatch_shown := shown\<rparr>
              in if d \<noteq> None then
                   (if shown
                    then (None, put_cs_state order (st1\<lparr>waiting_cleared := True\<rparr>)
                                  (h1\<lparr>renders := update_key_image d 0 ''Wrong Channel Number''
                                                    (255, 125, 0) None None False (renders h1)\<rparr>))
                    else (None, put_cs_state order (st1\<lparr>waiting_cleared := False\<rparr>)
                                  (h1\<lparr>renders := update_key_image d 0 '''' (0, 0, 0) None None False
                                                    (renders h1)\<rparr>)))
                 else (None, put_cs_state order st1 h1))))"

text \<open>Blanking every key of a deck: \<^verbatim>\<open>for key in range(deck.key_count())\<close>.\<close>

definition clear_keys :: "deck \<Rightarrow> render_call list \<Rightarrow> render_call list" where
  "clear_keys dk rs =
     foldl (\<lambda>acc key. update_key_image (Some dk) (int key) '''' (0, 0, 0) None None False acc)
       rs [0..<nat (key_count dk)]"

definition osc_document_closing_handler :: "osc_arg list \<Rightarrow> hw \<Rightarrow> py_error option \<times> hw" where
  "osc_document_closing_handler args h =
     (case (if args \<noteq> [] then py_int (args ! 0) else Inr 0) of
        Inl e \<Rightarrow> (Some e, h)
      | Inr order \<Rightarrow>
          (let (st0, h1) = get_cs_state order h;
               rs = (case get_deck_for_cs order h1 of
                       None \<Rightarrow> renders h1
                     | Some dk \<Rightarrow> clear_keys dk (renders h1));
               st1 = st0\<lparr>key_states := Map.empty, last_ablonline := 0, waiting_cleared := False\<rparr>
           in (None, put_cs_state order st1 (h1\<lparr>renders := rs\<rparr>))))"

text \<open>
  One round of the loop over the four scene rows in \<^verbatim>\<open>osc_track_stopped_handler\<close>: the key of
  the column is marked stopped and drawn on red from its cache entry, and a timer is started
  whose callback holds the label, colour and progress just read.
\<close>

definition track_stopped_key ::
  "rat \<Rightarrow> rat \<Rightarrow> deck \<Rightarrow> int \<Rightarrow> int
     \<Rightarrow> cs_record \<times> render_call list \<times> (rat \<times> timer_action) list
     \<Rightarrow> cs_record \<times> render_call list \<times> (rat \<times> timer_action) list" where
  "track_stopped_key now display_time dk order key acc =
     (case acc of (st, rs, ts) \<Rightarrow>
        (let (label_text, col, progress) =
               (case key_states st key of
                  Some (lt, color_val, p) \<Rightarrow> (lt, ableton_color_to_rgb color_val, Some p)
                | None \<Rightarrow> ('''', (0, 0, 0), None));
             st1 = st\<lparr>stopped_keys := insert key (stopped_keys st)\<rparr>
         in (st1,
             update_key_image (Some dk) key label_text col progress (Some (255, 0, 0)) False rs,
             ts @ [(now + display_time,
                    StopRestore dk order key label_text col progress)])))"

definition osc_track_stopped_handler :: "rat \<Rightarrow> osc_arg list \<Rightarrow> hw \<Rightarrow> py_error option \<times> hw" where
  "osc_track_stopped_handler now args h =
     (if length args < 3 then (None, h)
      else
        (case py_int (args ! 0) of
           Inl e \<Rightarrow> (Some e, h)
         | Inr order \<Rightarrow>
             (case py_int (args ! 1) of
                Inl e \<Rightarrow> (Some e, h)
              | Inr track_index \<Rightarrow>
                  (let was_playing = py_bool (args ! 2);
                       (st0, h1) = get_cs_state order h
                   in (case get_deck_for_cs order h1 of
                         None \<Rightarrow> (None, h1)
                       | Some dk \<Rightarrow>
                           (let display_time = (if was_playing then 4 else 1 / 2);
                                (st1, rs, ts) =
                                  foldl (\<lambda>acc scene_index.
                                           track_stopped_key now display_time dk order
                                             (int scene_index * 8 + track_index) acc)
                                    (st0, renders h1, timers h1) [0..<4]
                            in (None, put_cs_state order st1
                                        (h1\<lparr>renders := rs, timers := ts\<rparr>))))))))"



subsection \<open>The offline monitor\<close>

text \<open>One window's share of a pass of \<^verbatim>\<open>monitor_loop\<close>, at clock reading \<open>current_time\<close>.\<close>

definition monitor_order :: "rat \<Rightarrow> hw \<Rightarrow> int \<Rightarrow> hw" where
  "monitor_order current_time h order =
     (let (st, h1) = get_cs_state order h
      in (case get_deck_for_cs order h1 of
            None \<Rightarrow> h1
          | Some dk \<Rightarrow>
              (let last_msg = last_ablonline st;
                   was_offline = ableton_offline st
               in if last_msg > 0 \<and> current_time - last_msg > OFFLINE_TIMEOUT
                  then (if \<not> was_offline
                        then put_cs_state order
                               (st\<lparr>ableton_offline := True, waiting_cleared := False\<rparr>)
                               (h1\<lparr>renders :=
                                      update_key_image (Some dk) 0 ''Ableton Offline'' (255, 80, 0)
                                        None None False (clear_keys dk (renders h1))\<rparr>)
                        else h1)
                  else h1)))"

definition monitor_pass :: "rat \<Rightarrow> hw \<Rightarrow> hw" where
  "monitor_pass current_time h = foldl (monitor_order current_time) h (get_active_display_orders h)"

subsection \<open>Keys\<close>

text \<open>\<^verbatim>\<open>on_key_change\<close>: the message a key press sends, by scroll mode and menu state.\<close>

definition on_key_change :: "int \<Rightarrow> int \<Rightarrow> hw \<Rightarrow> hw" where
  "on_key_change key order h =
     (let trigger = (\<lambda>h'. send_osc_message order ''/trigger_clip''
                            [OInt (key mod 8), OInt (key div 8)] h');
          scroll = (\<lambda>direction h'. send_osc_message order ''/scroll'' [OStr direction] h')
      in if scroll_mode h = SCROLL_VERTICAL then
           (if key = 30 then scroll ''up'' h
            else if key = 31 then scroll ''down'' h
            else trigger h)
         else if scroll_mode h = SCROLL_BOTH \<or> scroll_mode h = SCROLL_BOTH_RESET then
           (let (st, h1) = get_cs_state order h
            in if menu_active st \<and> key = KEY_ARROW_UP then scroll ''up'' h1
               else if menu_active st \<and> key = KEY_ARROW_DOWN then scroll ''down'' h1
               else if menu_active st \<and> key = KEY_ARROW_LEFT then
                 scroll (if scroll_mode h = SCROLL_BOTH then ''left'' else ''reset'') h1
               else if menu_active st \<and> key = KEY_ARROW_RIGHT then scroll ''right'' h1
               else if key = KEY_BURGER \<or> key = KEY_BRIGHTNESS then h1
               else trigger h1)
         else trigger h)"

text \<open>\<^verbatim>\<open>restore_key_image\<close>: the key is drawn from whatever its cache entry holds now.\<close>

definition restore_key_image :: "deck \<Rightarrow> int \<Rightarrow> cs_record \<Rightarrow> render_call list \<Rightarrow> render_call list" where
  "restore_key_image dk key st rs =
     (case key_states st key of
        Some (label, color_val, progress) \<Rightarrow>
          (let col = (if color_val \<noteq> 0 then ableton_color_to_rgb color_val else (0, 0, 0))
           in if progress \<ge> 0 then
                (let fraction = (if progress > 0 then progress / 16 else 1)
                 in update_key_image (Some dk) key label col (Some fraction) None False rs)
              else if progress = - 1 then
                update_key_image (Some dk) key label col (Some (- 1)) None False rs
              else if progress = - 3 then
                update_key_image (Some dk) key label col (Some (- 2)) (Some (255, 0, 0)) False rs
              else update_key_image (Some dk) key label col (Some (- 2)) None False rs)
      | None \<Rightarrow> update_key_image (Some dk) key '''' (0, 0, 0) None None False rs)"

text \<open>
  The two branches of the per-key loop in \<^verbatim>\<open>poll_keys\<close>, at clock reading \<open>current_time\<close>:
  a key that went down, and a key that came up.
\<close>

definition key_pressed :: "rat \<Rightarrow> deck \<Rightarrow> int \<Rightarrow> int \<Rightarrow> hw \<Rightarrow> hw" where
  "key_pressed current_time dk order key h =
     (let (st, h1) = get_cs_state order h;
          st1 = st\<lparr>pressed_keys := insert key (pressed_keys st),
                   flash_until := (flash_until st)(key \<mapsto> current_time + FLASH_DURATION)\<rparr>;
          h2 = put_cs_state order st1
                 (h1\<lparr>renders := update_key_image (Some dk) key '''' (0, 0, 0) None None True
                                   (renders h1)\<rparr>)
      in on_key_change key order h2)"

definition key_released :: "rat \<Rightarrow> deck \<Rightarrow> int \<Rightarrow> int \<Rightarrow> hw \<Rightarrow> hw" where
  "key_released current_time dk order key h =
     (let (st, h1) = get_cs_state order h;
          st1 = st\<lparr>pressed_keys := pressed_keys st - {key}\<rparr>
      in (case flash_until st1 key of
            None \<Rightarrow> put_cs_state order st1 h1
          | Some t \<Rightarrow>
              (let remaining = t - current_time
               in if remaining > 0
                  then put_cs_state order st1
                         (h1\<lparr>timers := timers h1
                                @ [(current_time + remaining, FlashRestore dk order key)]\<rparr>)
                  else
                    (let st2 = st1\<lparr>flash_until := (flash_until st1)(key := None)\<rparr>
                     in put_cs_state order st2
                          (h1\<lparr>renders := restore_key_image dk key st2 (renders h1)\<rparr>)))))"

text \<open>
  A timer callback running. The stop-indicator callback draws the values bound when the
  timer was started; the flash callback goes through \<^verbatim>\<open>restore_key_image\<close>.
\<close>

definition fire_timer :: "timer_action \<Rightarrow> hw \<Rightarrow> hw" where
  "fire_timer action h =
     (case action of
        StopRestore dk order k lt c p \<Rightarrow>
          (case deck_states h order of
             None \<Rightarrow> h
           | Some st \<Rightarrow>
               put_cs_state order (st\<lparr>stopped_keys := stopped_keys st - {k}\<rparr>)
                 (h\<lparr>renders := update_key_image (Some dk) k lt c p None False (renders h)\<rparr>))
      | FlashRestore dk order k \<Rightarrow>
          (case deck_states h order of
             None \<Rightarrow> h
           | Some st \<Rightarrow>
               (let st1 = st\<lparr>flash_until := (flash_until st)(k := None)\<rparr>
                in put_cs_state order st1
                     (h\<lparr>renders := restore_key_image dk k st1 (renders h)\<rparr>))))"

text \<open>
  A key that \<open>on_key_change\<close> does not take for scrolling or for the menu: with vertical
  scrolling neither key 30 nor 31; with the overlay layouts neither the menu key nor the
  brightness key, and no arrow key while the menu is active.
\<close>
definition plain_clip_key :: "int \<Rightarrow> bool \<Rightarrow> string \<Rightarrow> bool" where
  "plain_clip_key key menu mode =
     (if mode = SCROLL_VERTICAL then key \<noteq> 30 \<and> key \<noteq> 31
      else if mode = SCROLL_BOTH \<or> mode = SCROLL_BOTH_RESET then
        \<not> (menu \<and> key \<in> {KEY_ARROW_UP, KEY_ARROW_DOWN, KEY_ARROW_LEFT, KEY_ARROW_RIGHT})
        \<and> key \<noteq> KEY_BURGER \<and> key \<noteq> KEY_BRIGHTNESS
      else True)"

text \<open>The images composed for one key index.\<close>
definition renders_for :: "int \<Rightarrow> render_call list \<Rightarrow> render_call list" where
  "renders_for i rs = filter (\<lambda>r. r_key r = i) rs"

text \<open>
  The cache entry and the held-or-flashing status of a key in a window's record; a window
  without a record has no entries and no held keys, as the record \<open>get_cs_state\<close> would create.
\<close>
definition cache_entry :: "hw \<Rightarrow> int \<Rightarrow> int \<Rightarrow> key_state option" where
  "cache_entry h order i = (case deck_states h order of None \<Rightarrow> None | Some st \<Rightarrow> key_states st i)"

definition key_flashing :: "hw \<Rightarrow> int \<Rightarrow> rat \<Rightarrow> int \<Rightarrow> bool" where
  "key_flashing h order now i =
     (case deck_states h order of None \<Rightarrow> False | Some st \<Rightarrow> flashing st now i)"

text \<open>
  Example data: a 32-key deck configured as window 0 with vertical scrolling, key 0 held;
  and a stand-in for \<^verbatim>\<open>float\<close> that reads the integer codes the control surface sends.
\<close>

definition example_deck :: deck where
  "example_deck = \<lparr> serial = ''XL'', key_count = 32 \<rparr>"

definition example_hw :: hw where
  "example_hw =
     \<lparr> order_to_deck = [(0, example_deck)],
       deck_states = [0 \<mapsto> new_cs_record\<lparr>pressed_keys := {0}\<rparr>],
       scroll_mode = ''vertical'', config_decks = [(''XL'', 0, 0)], debug_mode_hw = False,
       renders = [], timers = [], osc_out = [] \<rparr>"

definition example_to_float :: "string \<Rightarrow> rat option" where
  "example_to_float s = map_option rat_of_int (int_of_string s)"

text \<open>
  The liveness record of a window: \<open>(last_ablonline, ableton_offline)\<close>. A window without
  a state record reads as the record \<open>get_cs_state\<close> would create: never heard from, offline.
\<close>
definition liveness :: "hw \<Rightarrow> int \<Rightarrow> rat \<times> bool" where
  "liveness h order =
     (case deck_states h order of
        None \<Rightarrow> (0, True)
      | Some st \<Rightarrow> (last_ablonline st, ableton_offline st))"

text \<open>What a pass of the offline monitor at \<open>now\<close> makes of a liveness record.\<close>
definition after_check :: "rat \<Rightarrow> rat \<times> bool \<Rightarrow> rat \<times> bool" where
  "after_check now l =
     (fst l, snd l \<or> (0 < fst l \<and> OFFLINE_TIMEOUT < now - fst l))"

text \<open>
  Example data: key 2 of window 0 is cached as \<open>(A, 5, -3)\<close>; a \<^verbatim>\<open>/track_stopped\<close> for column
  2 arrives at time 0 and a snapshot giving key 2 the triple \<open>(B, 7, -2)\<close> at time 1.
\<close>
definition cached_hw :: hw where
  "cached_hw =
     example_hw\<lparr>deck_states := [0 \<mapsto> new_cs_record\<lparr>key_states := [2 \<mapsto> (''A'', 5, - 3)]\<rparr>]\<rparr>"

definition stop_then_snapshot :: hw where
  "stop_then_snapshot =
     snd (osc_clip_info_handler example_to_float 1
            [OInt 0, OStr '' |0|-3'', OStr '' |0|-3'', OStr ''B|7|-2'']
            (snd (osc_track_stopped_handler 0 [OInt 0, OInt 2, OInt 1] cached_hw)))"

section \<open>Properties of the session side\<close>

subsection \<open>Evaluation and frame lemmas\<close>

lemma empty_session_shape [simp]:
  "length (tracks (empty_session n m)) = n" "scenes (empty_session n m) = m"
  by (simp_all add: empty_session_def)

lemma endswith_eval: "endswith s suf = prefix (rev suf) (rev s)"
  by (simp add: endswith_def suffix_to_prefix)

lemma scroll_words:
  "scroll_direction ''left-fast'' = ''left''" "scroll_step ''left-fast'' = 4"
  "scroll_direction ''reset'' = ''reset''" "scroll_step ''reset'' = 1"
  by (simp_all add: scroll_direction_def scroll_step_def endswith_eval)

lemma apply_offsets_fields [simp]:
  "h_offset (apply_offsets s) = h_offset s"
  "v_offset (apply_offsets s) = v_offset s"
  "initial_h_offset (apply_offsets s) = initial_h_offset s"
  "config_received (apply_offsets s) = config_received s"
  "display_order (apply_offsets s) = display_order s"
  by (simp_all add: apply_offsets_def)

lemma osc_send_fields [simp]:
  "h_offset (osc_send a xs s) = h_offset s"
  "v_offset (osc_send a xs s) = v_offset s"
  "initial_h_offset (osc_send a xs s) = initial_h_offset s"
  "config_received (osc_send a xs s) = config_received s"
  "display_order (osc_send a xs s) = display_order s"
  by (simp_all add: osc_send_def Let_def split: option.splits)

lemma prepare_and_send_clip_info_fields [simp]:
  "h_offset (prepare_and_send_clip_info sg s) = h_offset s"
  "v_offset (prepare_and_send_clip_info sg s) = v_offset s"
  "initial_h_offset (prepare_and_send_clip_info sg s) = initial_h_offset s"
  "config_received (prepare_and_send_clip_info sg s) = config_received s"
  "display_order (prepare_and_send_clip_info sg s) = display_order s"
  by (simp_all add: prepare_and_send_clip_info_def split: sum.splits)

lemma osc_send_last:
  "sent (osc_send a xs s) \<noteq> [] \<and> snd (last (sent (osc_send a xs s))) = Msg a xs"
  by (simp add: osc_send_def Let_def split: option.splits)


lemma handle_scroll_initial [simp]:
  "initial_h_offset (handle_scroll sg d s) = initial_h_offset s"
  by (simp add: handle_scroll_def Let_def)

lemma handle_scroll_offsets:
  "h_offset (handle_scroll sg d s) =
     (if scroll_direction d = ''left'' then max 0 (h_offset s - scroll_step d)
      else if scroll_direction d = ''right''
        then min (max 0 (int (length (tracks sg)) - 8)) (h_offset s + scroll_step d)
      else if scroll_direction d = ''reset'' then initial_h_offset s
      else h_offset s)"
  "v_offset (handle_scroll sg d s) =
     (if scroll_direction d = ''up'' then max 0 (v_offset s - scroll_step d)
      else if scroll_direction d = ''down''
        then min (max 0 (int (scenes sg) - 4)) (v_offset s + scroll_step d)
      else v_offset s)"
  by (simp_all add: handle_scroll_def Let_def num_tracks_def num_scenes_def)

lemma osc_config_handler_first:
  assumes "2 \<le> length args" "py_int (args ! 0) = Inr (display_order s)"
    "py_int (args ! 1) = Inr h"
    "(if 3 \<le> length args then py_int (args ! 2) else Inr 0) = Inr d"
    "\<not> config_received s"
  shows "h_offset (osc_config_handler sg args s) = h"
    "initial_h_offset (osc_config_handler sg args s) = h"
    "v_offset (osc_config_handler sg args s) = v_offset s"
    "config_received (osc_config_handler sg args s)"
    "display_order (osc_config_handler sg args s) = display_order s"
    "sent (osc_config_handler sg args s) \<noteq> []"
    "snd (last (sent (osc_config_handler sg args s))) = Msg ''/ablonline'' [OInt (display_order s)]"
  using assms by (simp_all add: osc_config_handler_def Let_def osc_send_last)

lemma osc_config_handler_later:
  assumes "2 \<le> length args" "py_int (args ! 0) = Inr (display_order s)"
    "py_int (args ! 1) = Inr h"
    "(if 3 \<le> length args then py_int (args ! 2) else Inr 0) = Inr d"
    "config_received s"
  shows "osc_config_handler sg args s =
           osc_send ''/ablonline'' [OInt (display_order s)]
             (s\<lparr>debug_mode := (d \<noteq> 0),
                debug_client := (if d \<noteq> 0 then Some (osc_send_port s + 1000) else debug_client s)\<rparr>)"
proof -
  have same: "s\<lparr>config_received := True\<rparr> = s"
    using assms(5) by (cases s) simp
  show ?thesis
    using assms by (simp add: osc_config_handler_def Let_def same)
qed

subsection \<open>Scrolling keeps the window inside the session\<close>








lemma check_structural_validity_fields [simp]:
  "h_offset (fst (check_structural_validity sg s)) = h_offset s"
  "v_offset (fst (check_structural_validity sg s)) = v_offset s"
  "initial_h_offset (fst (check_structural_validity sg s)) = initial_h_offset s"
  "config_received (fst (check_structural_validity sg s)) = config_received s"
  "display_order (fst (check_structural_validity sg s)) = display_order s"
  by (simp_all add: check_structural_validity_def Let_def)

lemma handle_trigger_clip_fields [simp]:
  "h_offset (handle_trigger_clip sg sg' t c s) = h_offset s"
  "v_offset (handle_trigger_clip sg sg' t c s) = v_offset s"
  "initial_h_offset (handle_trigger_clip sg sg' t c s) = initial_h_offset s"
  "config_received (handle_trigger_clip sg sg' t c s) = config_received s"
  "display_order (handle_trigger_clip sg sg' t c s) = display_order s"
  by (simp_all add: handle_trigger_clip_def Let_def case_prod_beta
      split: sum.splits option.splits)

lemma handle_scroll_frame [simp]:
  "config_received (handle_scroll sg d s) = config_received s"
  "display_order (handle_scroll sg d s) = display_order s"
  by (simp_all add: handle_scroll_def Let_def)

lemma osc_config_handler_keeps_initial:
  assumes "config_received s"
  shows "initial_h_offset (osc_config_handler sg args s) = initial_h_offset s
         \<and> config_received (osc_config_handler sg args s)"
  using assms by (simp add: osc_config_handler_def Let_def split: sum.splits)

lemma cs_step_keeps_initial:
  assumes "config_received s"
  shows "initial_h_offset (cs_step s ev) = initial_h_offset s \<and> config_received (cs_step s ev)"
proof (cases ev)
  case (Scroll sg args)
  then show ?thesis using assms
    by (simp add: osc_scroll_handler_def split: list.splits osc_arg.splits)
next
  case (Config sg args)
  then show ?thesis using assms osc_config_handler_keeps_initial[of s sg args] by simp
next
  case (TriggerClip sg sg' t c)
  then show ?thesis using assms by simp
qed

lemma cs_run_keeps_initial:
  assumes "config_received s"
  shows "initial_h_offset (cs_run evs s) = initial_h_offset s \<and> config_received (cs_run evs s)"
  using assms
proof (induction evs arbitrary: s)
  case Nil
  then show ?case by (simp add: cs_run_def)
next
  case (Cons ev evs)
  have "cs_run (ev # evs) s = cs_run evs (cs_step s ev)" by (simp add: cs_run_def)
  then show ?case
    using Cons.IH[of "cs_step s ev"] cs_step_keeps_initial[OF Cons.prems, of ev] by simp
qed

subsection \<open>The configuration handshake\<close>

lemma osc_config_handler_display_order [simp]:
  "display_order (osc_config_handler sg args s) = display_order s"
  by (simp add: osc_config_handler_def Let_def split: sum.splits)

text \<open>
  C2. A \<^verbatim>\<open>/config\<close> message is accepted when it has at least two arguments, all its
  arguments convert to integers and the order it carries is the control surface's own.
  \<open>config_received\<close> is false until the first acceptance and true ever after. The first
  accepted message sets \<open>h_offset\<close> and \<open>initial_h_offset\<close> to the carried offset and the
  last message sent is \<^verbatim>\<open>/ablonline\<close>. Every later accepted message changes the debug flag
  (with it the debug client), sends \<^verbatim>\<open>/ablonline\<close>, and nothing else: the three offsets
  are as before.
\<close>

theorem config_first_sets_later_keeps:
  assumes "2 \<le> length args"
    and "py_int (args ! 0) = Inr (display_order s)"
    and "py_int (args ! 1) = Inr h"
    and "(if 3 \<le> length args then py_int (args ! 2) else Inr 0) = Inr d"
  shows "(\<not> config_received s \<longrightarrow>
            h_offset (osc_config_handler sg args s) = h
          \<and> initial_h_offset (osc_config_handler sg args s) = h
          \<and> config_received (osc_config_handler sg args s)
          \<and> sent (osc_config_handler sg args s) \<noteq> []
          \<and> snd (last (sent (osc_config_handler sg args s)))
              = Msg ''/ablonline'' [OInt (display_order s)])
       \<and> (config_received s \<longrightarrow>
            osc_config_handler sg args s =
              osc_send ''/ablonline'' [OInt (display_order s)]
                (s\<lparr>debug_mode := (d \<noteq> 0),
                   debug_client :=
                     (if d \<noteq> 0 then Some (osc_send_port s + 1000) else debug_client s)\<rparr>)
          \<and> h_offset (osc_config_handler sg args s) = h_offset s
          \<and> initial_h_offset (osc_config_handler sg args s) = initial_h_offset s
          \<and> v_offset (osc_config_handler sg args s) = v_offset s
          \<and> config_received (osc_config_handler sg args s))"
proof (cases "config_received s")
  case False
  then show ?thesis using osc_config_handler_first[OF assms False, of sg] by simp
next
  case True
  have eq: "osc_config_handler sg args s =
      osc_send ''/ablonline'' [OInt (display_order s)]
        (s\<lparr>debug_mode := (d \<noteq> 0),
           debug_client := (if d \<noteq> 0 then Some (osc_send_port s + 1000) else debug_client s)\<rparr>)"
    by (rule osc_config_handler_later[OF assms True])
  show ?thesis using True eq by simp
qed

theorem config_first_sets_later_keeps_witness:
  "2 \<le> length [OInt 0, OInt 8, OInt 1]
   \<and> py_int ([OInt 0, OInt 8, OInt 1] ! 0) = Inr (display_order (cs_init 0))
   \<and> py_int ([OInt 0, OInt 8, OInt 1] ! 1) = Inr 8
   \<and> \<not> config_received (cs_init 0)
   \<and> h_offset (osc_config_handler (empty_session 12 4) [OInt 0, OInt 8, OInt 1] (cs_init 0)) = 8
   \<and> initial_h_offset (osc_config_handler (empty_session 12 4) [OInt 0, OInt 8, OInt 1] (cs_init 0)) = 8
   \<and> config_received (osc_config_handler (empty_session 12 4) [OInt 0, OInt 8, OInt 1] (cs_init 0))
   \<and> h_offset (osc_config_handler (empty_session 12 4) [OInt 0, OInt 16]
         (osc_config_handler (empty_session 12 4) [OInt 0, OInt 8, OInt 1] (cs_init 0))) = 8
   \<and> initial_h_offset (osc_config_handler (empty_session 12 4) [OInt 0, OInt 16]
         (osc_config_handler (empty_session 12 4) [OInt 0, OInt 8, OInt 1] (cs_init 0))) = 8"
  using config_first_sets_later_keeps[of "[OInt 0, OInt 8, OInt 1]" "cs_init 0" 8 1
      "empty_session 12 4"]
    config_first_sets_later_keeps[of "[OInt 0, OInt 16]"
      "osc_config_handler (empty_session 12 4) [OInt 0, OInt 8, OInt 1] (cs_init 0)" 16 0
      "empty_session 12 4"]
  by (simp add: py_int_def cs_init_def)

subsection \<open>Reset\<close>

text \<open>
  C7. Take the state in which the first configuration, carrying offset \<open>h\<close>, was accepted,
  and let any sequence of later events (scrolls of any kind, further configurations,
  triggers) follow. A \<^verbatim>\<open>reset\<close> scroll (\<^verbatim>\<open>reset\<close> or \<^verbatim>\<open>reset-fast\<close>) then sets \<open>h_offset\<close> to
  \<open>h\<close> and leaves \<open>v_offset\<close> as it was.
\<close>

theorem reset_restores_first_config_offset:
  assumes "2 \<le> length args"
    and "py_int (args ! 0) = Inr (display_order s)"
    and "py_int (args ! 1) = Inr h"
    and "(if 3 \<le> length args then py_int (args ! 2) else Inr 0) = Inr d"
    and "\<not> config_received s"
    and "scroll_direction direction = ''reset''"
  shows "h_offset (osc_scroll_handler sg [OStr direction] (cs_run evs (osc_config_handler sg0 args s))) = h
       \<and> v_offset (osc_scroll_handler sg [OStr direction] (cs_run evs (osc_config_handler sg0 args s)))
           = v_offset (cs_run evs (osc_config_handler sg0 args s))"
proof -
  let ?s1 = "osc_config_handler sg0 args s"
  have "config_received ?s1" "initial_h_offset ?s1 = h"
    using osc_config_handler_first[OF assms(1-5), of sg0] by simp_all
  then have "initial_h_offset (cs_run evs ?s1) = h"
    using cs_run_keeps_initial[of ?s1 evs] by simp
  then show ?thesis
    using assms(6) by (simp add: osc_scroll_handler_def handle_scroll_offsets)
qed

theorem reset_restores_first_config_offset_witness:
  "2 \<le> length [OInt 0, OInt 3]
   \<and> py_int ([OInt 0, OInt 3] ! 0) = Inr (display_order (cs_init 0))
   \<and> py_int ([OInt 0, OInt 3] ! 1) = Inr 3
   \<and> \<not> config_received (cs_init 0)
   \<and> scroll_direction ''reset'' = ''reset''
   \<and> h_offset (osc_scroll_handler (empty_session 12 6) [OStr ''reset'']
         (cs_run [Scroll (empty_session 12 6) [OStr ''left-fast''],
                  Scroll (empty_session 12 6) [OStr ''down'']]
            (osc_config_handler (empty_session 12 6) [OInt 0, OInt 3] (cs_init 0)))) = 3
   \<and> v_offset (osc_scroll_handler (empty_session 12 6) [OStr ''reset'']
         (cs_run [Scroll (empty_session 12 6) [OStr ''left-fast''],
                  Scroll (empty_session 12 6) [OStr ''down'']]
            (osc_config_handler (empty_session 12 6) [OInt 0, OInt 3] (cs_init 0))))
       = v_offset (cs_run [Scroll (empty_session 12 6) [OStr ''left-fast''],
                  Scroll (empty_session 12 6) [OStr ''down'']]
            (osc_config_handler (empty_session 12 6) [OInt 0, OInt 3] (cs_init 0)))"
  using reset_restores_first_config_offset[of "[OInt 0, OInt 3]" "cs_init 0" 3 0 "''reset''"
      "empty_session 12 6"
      "[Scroll (empty_session 12 6) [OStr ''left-fast''], Scroll (empty_session 12 6) [OStr ''down'']]"
      "empty_session 12 6"]
  by (simp add: py_int_def cs_init_def scroll_words)

section \<open>Properties of the snapshot\<close>

lemma trunc_clamp: "max 0 (min (py_trunc x) 15) = max 0 (min \<lfloor>x\<rfloor> 15)"
proof (cases "0 \<le> x")
  case True
  then show ?thesis by (simp add: py_trunc_def)
next
  case False
  then have "x < 0" by simp
  then have "\<lfloor>x\<rfloor> < 0" "\<lceil>x\<rceil> \<le> 0" by (simp_all add: floor_less_iff ceiling_le_iff)
  then show ?thesis using False by (simp add: py_trunc_def)
qed

lemma progress_val_floor:
  "progress_val p l = max 0 (min \<lfloor>p / l * 16\<rfloor> 15) + 1"
  by (simp add: progress_val_def Let_def trunc_clamp)

lemma progress_val_range: "1 \<le> progress_val p l \<and> progress_val p l \<le> 16"
  by (simp add: progress_val_floor)

lemma collect_Inr:
  "collect rs = Inr xs \<Longrightarrow> length xs = length rs \<and> (\<forall>i<length rs. rs ! i = Inr (xs ! i))"
proof (induction rs arbitrary: xs rule: collect.induct)
  case 1
  then show ?case by simp
next
  case (2 e uu)
  then show ?case by simp
next
  case (3 x rs)
  from "3.prems" obtain ys where ys: "collect rs = Inr ys" "xs = x # ys"
    by (auto split: sum.splits)
  from "3.IH"[OF ys(1)] ys(2) show ?case
    by (auto simp add: nth_Cons split: nat.splits)
qed


lemma grid_length:
  "length (concat (map (\<lambda>i. map (f i) [0..<m]) [0..<n])) = n * m"
  by (induction n) simp_all

lemma grid_nth:
  assumes "k < n * m"
  shows "concat (map (\<lambda>i. map (f i) [0..<m]) [0..<n]) ! k = f (k div m) (k mod m)"
  using assms
proof (induction n)
  case 0
  then show ?case by simp
next
  case (Suc n)
  have m: "0 < m" using Suc.prems by (cases m) simp_all
  show ?case
  proof (cases "k < n * m")
    case True
    then show ?thesis using Suc.IH by (simp add: nth_append grid_length)
  next
    case False
    then have ge: "n * m \<le> k" by simp
    have lt: "k - n * m < m" using Suc.prems ge by simp
    have d: "k div m = n"
    proof -
      have "k = n * m + (k - n * m)" using ge by simp
      then have "k div m = (n * m + (k - n * m)) div m" by simp
      also have "\<dots> = n" using lt m by simp
      finally show ?thesis .
    qed
    have md: "k mod m = k - n * m"
      using d by (metis add_diff_cancel_left' mult.commute mult_div_mod_eq)
    show ?thesis using False lt d md by (simp add: nth_append grid_length)
  qed
qed

lemma py_index_nonneg:
  "0 \<le> i \<Longrightarrow> py_index xs i = (if i < int (length xs) then Inr (xs ! nat i) else Inl IndexError)"
  by (simp add: py_index_def)


lemma cell_at_in_range:
  assumes "cell_at sg tip h v si ti = Inr c" "0 \<le> h" "0 \<le> v"
    "h + int ti < int (length (tracks sg))" "v + int si < int (scenes sg)"
  shows "snd (snd c) =
           slot_code (tip ! ti) (clip_slots (tracks sg ! nat (h + int ti)) ! nat (v + int si))"
proof -
  let ?t = "tracks sg ! nat (h + int ti)"
  have pt: "py_index (tracks sg) (h + int ti) = Inr ?t"
    using assms(2,4) by (simp add: py_index_nonneg)
  have nn: "0 \<le> v + int si" using assms(3) by simp
  show ?thesis
  proof (cases "v + int si < int (length (clip_slots ?t))")
    case False
    then have "py_index (clip_slots ?t) (v + int si) = Inl IndexError"
      using nn by (simp add: py_index_nonneg)
    then show ?thesis using assms(1,4,5) pt by (simp add: cell_at_def Let_def)
  next
    case True
    then have ps: "py_index (clip_slots ?t) (v + int si) = Inr (clip_slots ?t ! nat (v + int si))"
      using nn by (simp add: py_index_nonneg)
    show ?thesis using assms(1,4,5) pt ps
      by (auto simp add: cell_at_def Let_def slot_code_def progress_val_floor
          split: option.splits if_splits)
  qed
qed

lemma cell_at_out_of_range:
  assumes "h + int ti \<ge> int (length (tracks sg)) \<or> v + int si \<ge> int (scenes sg)"
  shows "cell_at sg tip h v si ti = Inr (''X'', 3276800, - 4)"
  using assms by (simp add: cell_at_def Let_def)

lemma track_is_playing_at_in_range:
  assumes "0 \<le> h" "h + int ti < int (length (tracks sg))"
  shows "track_is_playing_at sg h ti = Inr (any_active (clip_slots (tracks sg ! nat (h + int ti))))"
  using assms by (simp add: track_is_playing_at_def Let_def py_index_nonneg)

lemma clip_info_cells_parts:
  assumes "clip_info_cells sg h v = Inr cells"
  obtains tip where "collect (map (track_is_playing_at sg h) [0..<8]) = Inr tip"
    and "collect (concat (map (\<lambda>si. map (\<lambda>ti. cell_at sg tip h v si ti) [0..<8]) [0..<4]))
          = Inr cells"
  using assms by (auto simp add: clip_info_cells_def split: sum.splits)

lemma clip_info_cells_nth:
  assumes "clip_info_cells sg h v = Inr cells" "k < 32"
  shows "length cells = 32"
    and "\<exists>tip. cell_at sg tip h v (k div 8) (k mod 8) = Inr (cells ! k)
              \<and> track_is_playing_at sg h (k mod 8) = Inr (tip ! (k mod 8))"
proof -
  from assms(1) obtain tip where
    tip: "collect (map (track_is_playing_at sg h) [0..<8]) = Inr tip"
    and grid: "collect (concat (map (\<lambda>si. map (\<lambda>ti. cell_at sg tip h v si ti) [0..<8]) [0..<4]))
          = Inr cells"
    by (rule clip_info_cells_parts)
  from collect_Inr[OF grid] have
    len: "length cells = 32"
    and nth: "\<forall>i<32. concat (map (\<lambda>si. map (\<lambda>ti. cell_at sg tip h v si ti) [0..<8]) [0..<4]) ! i
              = Inr (cells ! i)"
    by (simp_all add: grid_length)
  show "length cells = 32" by (rule len)
  have c: "cell_at sg tip h v (k div 8) (k mod 8) = Inr (cells ! k)"
    using nth assms(2) grid_nth[of k 4 8 "\<lambda>si ti. cell_at sg tip h v si ti"] by simp
  have "k mod 8 < 8" by simp
  then have "map (track_is_playing_at sg h) [0..<8] ! (k mod 8) = Inr (tip ! (k mod 8))"
    using collect_Inr[OF tip] by simp
  then have t: "track_is_playing_at sg h (k mod 8) = Inr (tip ! (k mod 8))"
    by simp
  show "\<exists>tip. cell_at sg tip h v (k div 8) (k mod 8) = Inr (cells ! k)
              \<and> track_is_playing_at sg h (k mod 8) = Inr (tip ! (k mod 8))"
    using c t by blast
qed

lemma snapshot_cell_code:
  assumes "clip_info_cells sg h v = Inr cells" "0 \<le> h" "0 \<le> v" "k < 32"
  shows "if h + int (k mod 8) \<ge> int (length (tracks sg)) \<or> v + int (k div 8) \<ge> int (scenes sg)
         then cells ! k = (''X'', 3276800, - 4)
         else snd (snd (cells ! k)) =
                slot_code (any_active (clip_slots (tracks sg ! nat (h + int (k mod 8)))))
                  (clip_slots (tracks sg ! nat (h + int (k mod 8))) ! nat (v + int (k div 8)))"
proof -
  from clip_info_cells_nth(2)[OF assms(1,4)] obtain tip where
    c: "cell_at sg tip h v (k div 8) (k mod 8) = Inr (cells ! k)"
    and t: "track_is_playing_at sg h (k mod 8) = Inr (tip ! (k mod 8))"
    by blast
  show ?thesis
  proof (cases "h + int (k mod 8) \<ge> int (length (tracks sg)) \<or> v + int (k div 8) \<ge> int (scenes sg)")
    case True
    then show ?thesis using c cell_at_out_of_range[OF True, of tip] by simp
  next
    case False
    then have r: "h + int (k mod 8) < int (length (tracks sg))" "v + int (k div 8) < int (scenes sg)"
      by simp_all
    have "tip ! (k mod 8) = any_active (clip_slots (tracks sg ! nat (h + int (k mod 8))))"
      using t track_is_playing_at_in_range[OF assms(2) r(1)] by simp
    then show ?thesis using False cell_at_in_range[OF c assms(2,3) r] by simp
  qed
qed





lemma example_session_facts:
  "well_formed example_session" "length (tracks example_session) = 8" "scenes example_session = 4"
  "clip_slots (tracks example_session ! 2) ! 1 = Some example_clip"
  "clip_slots (tracks example_session ! 2) ! Suc 0 = Some example_clip"
  "any_active (clip_slots (tracks example_session ! 2))"
  by (simp_all add: well_formed_def example_session_def example_clip_def Let_def any_active_def)




section \<open>Properties of the hardware side\<close>

lemma get_cs_state_snd_frame [simp]:
  "renders (snd (get_cs_state order h)) = renders h"
  "timers (snd (get_cs_state order h)) = timers h"
  "order_to_deck (snd (get_cs_state order h)) = order_to_deck h"
  "osc_out (snd (get_cs_state order h)) = osc_out h"
  "debug_mode_hw (snd (get_cs_state order h)) = debug_mode_hw h"
  "scroll_mode (snd (get_cs_state order h)) = scroll_mode h"
  by (simp_all add: get_cs_state_def init_cs_state_def split: option.splits)

lemma send_osc_message_out:
  "osc_out (send_osc_message order a xs h) =
     osc_out h @ (if debug_mode_hw h
                  then [(9001 + order * 10, Msg a xs), (9001 + order * 10 + 1000, Msg a xs)]
                  else [(9001 + order * 10, Msg a xs)])"
  by (simp add: send_osc_message_def Let_def)

lemma on_key_change_plain:
  assumes "plain_clip_key key (menu_active (fst (get_cs_state order h))) (scroll_mode h)"
  shows "osc_out (on_key_change key order h) =
           osc_out (send_osc_message order ''/trigger_clip'' [OInt (key mod 8), OInt (key div 8)] h)"
proof (cases "scroll_mode h = SCROLL_VERTICAL")
  case True
  then show ?thesis using assms
    by (simp add: on_key_change_def plain_clip_key_def)
next
  case nv: False
  show ?thesis
  proof (cases "scroll_mode h = SCROLL_BOTH \<or> scroll_mode h = SCROLL_BOTH_RESET")
    case False
    then show ?thesis using nv by (simp add: on_key_change_def)
  next
    case True
    with nv assms have k:
      "\<not> (menu_active (fst (get_cs_state order h)) \<and> key = KEY_ARROW_UP)"
      "\<not> (menu_active (fst (get_cs_state order h)) \<and> key = KEY_ARROW_DOWN)"
      "\<not> (menu_active (fst (get_cs_state order h)) \<and> key = KEY_ARROW_LEFT)"
      "\<not> (menu_active (fst (get_cs_state order h)) \<and> key = KEY_ARROW_RIGHT)"
      "key \<noteq> KEY_BURGER" "key \<noteq> KEY_BRIGHTNESS"
      by (auto simp add: plain_clip_key_def)
    have "on_key_change key order h =
            send_osc_message order ''/trigger_clip'' [OInt (key mod 8), OInt (key div 8)]
              (snd (get_cs_state order h))"
      using nv True k unfolding on_key_change_def Let_def case_prod_beta
      by (simp only: if_False if_True simp_thms)
    then show ?thesis by (simp add: send_osc_message_out)
  qed
qed

lemma live_calls_frame [simp]:
  "live_calls (osc_send a xs s) = live_calls s"
  "live_calls (prepare_and_send_clip_info sg s) = live_calls s"
  "live_calls (fst (check_structural_validity sg s)) = live_calls s"
  by (simp_all add: osc_send_def prepare_and_send_clip_info_def check_structural_validity_def
      Let_def split: option.splits sum.splits)

lemma handle_trigger_clip_resolves:
  assumes "0 \<le> h_offset s + t" "h_offset s + t < int (length (tracks sg))"
    and "0 \<le> v_offset s + c" "v_offset s + c < int (scenes sg)"
    and "v_offset s + c < int (length (clip_slots (tracks sg ! nat (h_offset s + t))))"
  shows "live_calls (handle_trigger_clip sg sg_after t c s) =
           live_calls s @
             [case clip_slots (tracks sg ! nat (h_offset s + t)) ! nat (v_offset s + c) of
                Some _ \<Rightarrow> Fire (h_offset s + t) (v_offset s + c)
              | None \<Rightarrow> StopAllClips (h_offset s + t)]"
proof -
  let ?t = "tracks sg ! nat (h_offset s + t)"
  have pt: "py_index (tracks sg) (h_offset s + t) = Inr ?t"
    using assms(1,2) by (simp add: py_index_nonneg)
  have ps: "py_index (clip_slots ?t) (v_offset s + c) = Inr (clip_slots ?t ! nat (v_offset s + c))"
    using assms(3,5) by (simp add: py_index_nonneg)
  show ?thesis
    using assms(1-4) pt ps
    by (simp add: handle_trigger_clip_def Let_def case_prod_beta split: option.splits)
qed

text \<open>
  C10. Let \<open>key\<close> in \<open>0..31\<close> be a plain clip key, and let the slot at track
  \<open>h_offset + key mod 8\<close>, scene \<open>v_offset + key div 8\<close> exist in the session. Pressing the key
  sends \<^verbatim>\<open>/trigger_clip\<close> with \<open>key mod 8\<close> and \<open>key div 8\<close>; the control surface acts on that
  slot (it fires the slot, or stops its track when the slot is empty); and whenever a
  snapshot is produced, its cell \<open>key\<close> carries the classification of that same slot.
\<close>

theorem press_addresses_snapshot_cell:
  assumes "0 \<le> key" and "key < 32"
    and "plain_clip_key key (menu_active (fst (get_cs_state order hs))) (scroll_mode hs)"
    and "0 \<le> h_offset s" and "0 \<le> v_offset s"
    and "h_offset s + key mod 8 < int (length (tracks sg))"
    and "v_offset s + key div 8 < int (scenes sg)"
    and "v_offset s + key div 8
           < int (length (clip_slots (tracks sg ! nat (h_offset s + key mod 8))))"
  shows "osc_out (on_key_change key order hs) =
           osc_out (send_osc_message order ''/trigger_clip''
                      [OInt (key mod 8), OInt (key div 8)] hs)
       \<and> live_calls (handle_trigger_clip sg sg_after (key mod 8) (key div 8) s) =
           live_calls s @
             [case clip_slots (tracks sg ! nat (h_offset s + key mod 8))
                     ! nat (v_offset s + key div 8) of
                Some _ \<Rightarrow> Fire (h_offset s + key mod 8) (v_offset s + key div 8)
              | None \<Rightarrow> StopAllClips (h_offset s + key mod 8)]
       \<and> (\<forall>cells. clip_info_cells sg (h_offset s) (v_offset s) = Inr cells \<longrightarrow>
             snd (snd (cells ! nat key)) =
               slot_code (any_active (clip_slots (tracks sg ! nat (h_offset s + key mod 8))))
                 (clip_slots (tracks sg ! nat (h_offset s + key mod 8))
                    ! nat (v_offset s + key div 8)))"
proof (intro conjI allI impI)
  show "osc_out (on_key_change key order hs) =
           osc_out (send_osc_message order ''/trigger_clip''
                      [OInt (key mod 8), OInt (key div 8)] hs)"
    using assms(3) by (rule on_key_change_plain)
next
  have m: "0 \<le> key mod 8" "0 \<le> key div 8" using assms(1) by simp_all
  show "live_calls (handle_trigger_clip sg sg_after (key mod 8) (key div 8) s) =
           live_calls s @
             [case clip_slots (tracks sg ! nat (h_offset s + key mod 8))
                     ! nat (v_offset s + key div 8) of
                Some _ \<Rightarrow> Fire (h_offset s + key mod 8) (v_offset s + key div 8)
              | None \<Rightarrow> StopAllClips (h_offset s + key mod 8)]"
    using handle_trigger_clip_resolves[of s "key mod 8" sg "key div 8" sg_after] assms(4-8) m
    by simp
next
  fix cells assume c: "clip_info_cells sg (h_offset s) (v_offset s) = Inr cells"
  have k: "nat key < 32" using assms(1,2) by simp
  have md: "int (nat key mod 8) = key mod 8" "int (nat key div 8) = key div 8"
    using assms(1) by (simp_all add: zmod_int zdiv_int)
  show "snd (snd (cells ! nat key)) =
               slot_code (any_active (clip_slots (tracks sg ! nat (h_offset s + key mod 8))))
                 (clip_slots (tracks sg ! nat (h_offset s + key mod 8))
                    ! nat (v_offset s + key div 8))"
    using snapshot_cell_code[OF c assms(4,5) k] assms(6,7) by (simp add: md)
qed

lemma renders_for_append [simp]: "renders_for i (rs @ qs) = renders_for i rs @ renders_for i qs"
  by (simp add: renders_for_def)

lemma update_key_image_key:
  "\<exists>new. update_key_image d k l c p b f rs = rs @ new \<and> (\<forall>r\<in>set new. r_key r = k)
         \<and> (case d of None \<Rightarrow> new = [] | Some dk \<Rightarrow> (0 \<le> k \<and> k < key_count dk \<longrightarrow> length new = 1))"
  by (simp add: update_key_image_def split: option.splits)

lemma render_new_state_key:
  "\<exists>new. render_new_state dk i ns rs = rs @ new \<and> (\<forall>r\<in>set new. r_key r = i)
         \<and> (0 \<le> i \<and> i < key_count dk \<longrightarrow> length new = 1)"
proof -
  obtain l c p where ns: "ns = (l, c, p)" by (cases ns) auto
  show ?thesis
    using update_key_image_key[of "Some dk" i l "ableton_color_to_rgb c" _ _ False rs]
    unfolding ns render_new_state_def Let_def
    by (simp split: if_splits)
qed

lemma render_new_state_for:
  "renders_for i (render_new_state dk j ns rs) =
     renders_for i rs @ (if i = j then renders_for i (drop (length rs) (render_new_state dk j ns rs)) else [])"
proof -
  from render_new_state_key[of dk j ns rs] obtain new where
    n: "render_new_state dk j ns rs = rs @ new" "\<forall>r\<in>set new. r_key r = j" by blast
  have "i \<noteq> j \<Longrightarrow> renders_for i new = []"
    using n(2) by (auto simp add: renders_for_def filter_empty_conv)
  then show ?thesis using n(1) by simp
qed


lemma clip_info_cell_frame:
  assumes "clip_info_cell tf now dk j info (st, rs) = (e, st', rs')"
  shows "pressed_keys st' = pressed_keys st" "flash_until st' = flash_until st"
    "last_ablonline st' = last_ablonline st" "ableton_offline st' = ableton_offline st"
    "i \<noteq> j \<Longrightarrow> key_states st' i = key_states st i"
    "i \<noteq> j \<Longrightarrow> renders_for i rs' = renders_for i rs"
  using assms render_new_state_for[of i dk j _ rs]
  by (auto simp add: clip_info_cell_def split: osc_arg.splits option.splits if_splits)



lemma clip_info_loop_frame:
  assumes "clip_info_loop tf now dk j xs (st, rs) = (e, st', rs')"
  shows "pressed_keys st' = pressed_keys st \<and> flash_until st' = flash_until st
         \<and> last_ablonline st' = last_ablonline st \<and> ableton_offline st' = ableton_offline st
         \<and> (\<forall>i<j. key_states st' i = key_states st i \<and> renders_for i rs' = renders_for i rs)"
  using assms
proof (induction xs arbitrary: j st rs)
  case Nil
  then show ?case by simp
next
  case (Cons x xs)
  show ?case
  proof (cases "j < 32")
    case False
    then have "clip_info_loop tf now dk (j + 1) xs (st, rs) = (e, st', rs')"
      using Cons.prems by simp
    from Cons.IH[OF this] show ?thesis by simp
  next
    case True
    obtain e1 st1 rs1 where c: "clip_info_cell tf now dk j x (st, rs) = (e1, st1, rs1)"
      by (metis prod_cases3)
    note f = clip_info_cell_frame[OF c]
    show ?thesis
    proof (cases e1)
      case (Some err)
      then have "st' = st1" "rs' = rs1" using Cons.prems True c by simp_all
      then show ?thesis using f by simp
    next
      case None
      then have "clip_info_loop tf now dk (j + 1) xs (st1, rs1) = (e, st', rs')"
        using Cons.prems True c by simp
      from Cons.IH[OF this] show ?thesis using f by simp
    qed
  qed
qed



lemma osc_clip_info_handler_unfold:
  assumes "get_deck_for_cs order h = Some dk" "2 \<le> length args" "py_int (args ! 0) = Inr order"
  shows "osc_clip_info_handler tf now args h =
     (let st0 = fst (get_cs_state order h);
          h1 = snd (get_cs_state order h);
          st2 = (if ableton_offline st0
                 then st0\<lparr>last_ablonline := now, ableton_offline := False, waiting_cleared := True\<rparr>
                 else st0\<lparr>last_ablonline := now\<rparr>);
          res = clip_info_loop tf now dk 0 (tl args) (st2, renders h)
      in (fst res, put_cs_state order (fst (snd res)) (h1\<lparr>renders := snd (snd res)\<rparr>)))"
  using assms
  by (simp add: osc_clip_info_handler_def Let_def case_prod_beta)


subsection \<open>The two claims on the example deck\<close>

lemma example_hw_facts:
  "get_deck_for_cs 0 example_hw = Some example_deck"
  "scroll_mode example_hw = ''vertical''"
  "osc_out example_hw = []" "debug_mode_hw example_hw = False" "renders example_hw = []"
  "key_count example_deck = 32"
  "cache_entry example_hw 0 i = None"
  "key_flashing example_hw 0 now i = (i = 0)"
  "menu_active (fst (get_cs_state 0 example_hw)) = False"
  by (simp_all add: example_hw_def example_deck_def get_deck_for_cs_def cache_entry_def
      key_flashing_def new_cs_record_def flashing_def get_cs_state_def)

theorem press_addresses_snapshot_cell_witness:
  "(0::int) \<le> 10 \<and> (10::int) < 32
   \<and> plain_clip_key 10 (menu_active (fst (get_cs_state 0 example_hw))) (scroll_mode example_hw)
   \<and> 0 \<le> h_offset (cs_init 0) \<and> 0 \<le> v_offset (cs_init 0)
   \<and> h_offset (cs_init 0) + 10 mod 8 < int (length (tracks example_session))
   \<and> v_offset (cs_init 0) + 10 div 8 < int (scenes example_session)
   \<and> osc_out (on_key_change 10 0 example_hw) = [(9001, Msg ''/trigger_clip'' [OInt 2, OInt 1])]
   \<and> live_calls (handle_trigger_clip example_session example_session 2 1 (cs_init 0)) = [Fire 2 1]"
proof -
  have i: "h_offset (cs_init 0) = 0" "v_offset (cs_init 0) = 0" "live_calls (cs_init 0) = []"
    by (simp_all add: cs_init_def)
  have p: "plain_clip_key 10 False ''vertical''"
    by (simp add: plain_clip_key_def SCROLL_VERTICAL_def)
  have sl: "length (clip_slots (tracks example_session ! 2)) = 4"
    by (simp add: example_session_def Let_def)
  show ?thesis
    using press_addresses_snapshot_cell[of 10 0 example_hw "cs_init 0" example_session
        example_session]
    by (simp add: i p sl example_hw_facts example_session_facts send_osc_message_out)
qed




subsection \<open>Liveness\<close>

lemma get_cs_state_liveness:
  "(last_ablonline (fst (get_cs_state order h)), ableton_offline (fst (get_cs_state order h)))
     = liveness h order"
  by (simp add: get_cs_state_def liveness_def new_cs_record_def split: option.splits)

lemma get_cs_state_other:
  "o' \<noteq> order \<Longrightarrow> deck_states (snd (get_cs_state order h)) o' = deck_states h o'"
  by (simp add: get_cs_state_def init_cs_state_def split: option.splits)

lemma get_cs_state_own:
  "deck_states (snd (get_cs_state order h)) order = Some (fst (get_cs_state order h))"
  by (simp add: get_cs_state_def init_cs_state_def split: option.splits)

lemma get_deck_for_cs_get_cs_state [simp]:
  "get_deck_for_cs o' (snd (get_cs_state order h)) = get_deck_for_cs o' h"
  by (simp add: get_deck_for_cs_def)

lemma liveness_put [simp]:
  "liveness (put_cs_state order st h) order = (last_ablonline st, ableton_offline st)"
  by (simp add: liveness_def put_cs_state_def)

lemma ablonline_liveness:
  assumes "args \<noteq> []" "py_int (args ! 0) = Inr order"
  shows "fst (osc_ablonline_handler now args h) = None
       \<and> liveness (snd (osc_ablonline_handler now args h)) order = (now, False)"
  using assms by (simp add: osc_ablonline_handler_def Let_def case_prod_beta)

lemma clip_info_liveness:
  assumes "get_deck_for_cs order h = Some dk" "2 \<le> length args" "py_int (args ! 0) = Inr order"
  shows "liveness (snd (osc_clip_info_handler tf now args h)) order = (now, False)"
proof -
  let ?st0 = "fst (get_cs_state order h)"
  let ?st2 = "(if ableton_offline ?st0
                 then ?st0\<lparr>last_ablonline := now, ableton_offline := False, waiting_cleared := True\<rparr>
                 else ?st0\<lparr>last_ablonline := now\<rparr>)"
  obtain e st3 rs where loop: "clip_info_loop tf now dk 0 (tl args) (?st2, renders h) = (e, st3, rs)"
    by (metis prod_cases3)
  from clip_info_loop_frame[OF loop] have
    "last_ablonline st3 = now" "ableton_offline st3 = False" by simp_all
  then show ?thesis
    using osc_clip_info_handler_unfold[OF assms, of tf now] loop by (simp add: Let_def)
qed

lemma monitor_order_own:
  assumes "get_deck_for_cs order h = Some dk"
  shows "liveness (monitor_order now h order) order =
           (fst (liveness h order),
            snd (liveness h order)
            \<or> (0 < fst (liveness h order) \<and> OFFLINE_TIMEOUT < now - fst (liveness h order)))"
proof -
  have l: "liveness h order =
      (last_ablonline (fst (get_cs_state order h)), ableton_offline (fst (get_cs_state order h)))"
    by (simp add: get_cs_state_liveness)
  have own: "liveness (snd (get_cs_state order h)) order =
      (last_ablonline (fst (get_cs_state order h)), ableton_offline (fst (get_cs_state order h)))"
    by (simp add: liveness_def get_cs_state_own)
  show ?thesis
    using assms unfolding l
    by (auto simp add: monitor_order_def Let_def case_prod_beta own)
qed

lemma monitor_order_other:
  assumes "o' \<noteq> order"
  shows "liveness (monitor_order now h order) o' = liveness h o'"
  using assms get_cs_state_other[of o' order h]
  by (simp add: monitor_order_def Let_def case_prod_beta liveness_def put_cs_state_def
      split: option.splits)

lemma monitor_order_decks [simp]:
  "get_deck_for_cs o' (monitor_order now h order) = get_deck_for_cs o' h"
  by (simp add: monitor_order_def Let_def case_prod_beta get_deck_for_cs_def put_cs_state_def
      split: option.splits)

lemma after_check_idem: "after_check now (after_check now l) = after_check now l"
  by (auto simp add: after_check_def)

lemma monitor_fold:
  assumes "get_deck_for_cs order h = Some dk"
  shows "liveness (foldl (monitor_order now) h os) order =
           (if order \<in> set os then after_check now (liveness h order) else liveness h order)"
  using assms
proof (induction os arbitrary: h)
  case Nil
  then show ?case by simp
next
  case (Cons x os)
  have d: "get_deck_for_cs order (monitor_order now h x) = Some dk"
    using Cons.prems by simp
  note ih = Cons.IH[OF d]
  show ?case
  proof (cases "x = order")
    case True
    have "liveness (monitor_order now h x) order = after_check now (liveness h order)"
      using monitor_order_own[OF Cons.prems, of now] True by (simp add: after_check_def)
    then show ?thesis using ih True by (simp add: after_check_idem)
  next
    case False
    then have "liveness (monitor_order now h x) order = liveness h order"
      using monitor_order_other[of order x now h] by simp
    then show ?thesis using ih False by simp
  qed
qed

lemma monitor_pass_liveness:
  assumes "get_deck_for_cs order h = Some dk"
  shows "liveness (monitor_pass now h) order = after_check now (liveness h order)"
proof -
  have "(order, dk) \<in> set (order_to_deck h)"
    using assms by (simp add: get_deck_for_cs_def map_of_SomeD)
  then have "order \<in> set (get_active_display_orders h)"
    by (force simp add: get_active_display_orders_def)
  then show ?thesis
    using monitor_fold[OF assms, of now "get_active_display_orders h"]
    by (simp add: monitor_pass_def)
qed

text \<open>
  C3, as the code has it. For a configured window, an \<^verbatim>\<open>/ablonline\<close> message and a
  \<^verbatim>\<open>/clip_info\<close> message of at least two arguments set \<open>last_ablonline\<close> to the time of
  arrival and clear \<open>ableton_offline\<close>. A pass of the offline monitor leaves
  \<open>last_ablonline\<close> alone and sets \<open>ableton_offline\<close> when \<open>last_ablonline > 0\<close> and more than
  the timeout has passed since; otherwise the flag stays as it was.
\<close>

theorem heartbeats_and_offline_check:
  assumes "get_deck_for_cs order h = Some dk"
  shows "(args \<noteq> [] \<and> py_int (args ! 0) = Inr order \<longrightarrow>
            liveness (snd (osc_ablonline_handler now args h)) order = (now, False))
       \<and> (2 \<le> length args \<and> py_int (args ! 0) = Inr order \<longrightarrow>
            liveness (snd (osc_clip_info_handler tf now args h)) order = (now, False))
       \<and> liveness (monitor_pass now h) order =
           (fst (liveness h order),
            snd (liveness h order)
            \<or> (0 < fst (liveness h order) \<and> OFFLINE_TIMEOUT < now - fst (liveness h order)))"
  using ablonline_liveness[of args order now h] clip_info_liveness[OF assms, of args tf now]
    monitor_pass_liveness[OF assms, of now]
  by (simp add: after_check_def)

theorem heartbeats_and_offline_check_witness:
  "get_deck_for_cs 0 example_hw = Some example_deck
   \<and> [OInt 0] \<noteq> [] \<and> py_int ([OInt 0] ! 0) = Inr 0
   \<and> liveness (snd (osc_ablonline_handler 1 [OInt 0] example_hw)) 0 = (1, False)
   \<and> 2 \<le> length [OInt 0, OStr ''A|5|-3''] \<and> py_int ([OInt 0, OStr ''A|5|-3''] ! 0) = Inr 0
   \<and> liveness (snd (osc_clip_info_handler example_to_float 3 [OInt 0, OStr ''A|5|-3'']
                     example_hw)) 0 = (3, False)
   \<and> liveness (monitor_pass 3 example_hw) 0 = (0, True)"
proof -
  have l: "liveness example_hw 0 = (0, True)"
    by (simp add: liveness_def example_hw_def new_cs_record_def)
  show ?thesis
    using heartbeats_and_offline_check[OF example_hw_facts(1), of "[OInt 0]" 1 "example_to_float"]
      heartbeats_and_offline_check[OF example_hw_facts(1), of "[OInt 0, OStr ''A|5|-3'']" 3
        "example_to_float"]
    by (simp add: py_int_def example_hw_facts l)
qed

text \<open>
  C3 as stated fails. After a heartbeat at time 1, a \<^verbatim>\<open>/structural_mismatch\<close> message leaves
  \<open>last_ablonline\<close> at 1. And after a heartbeat at time 1 and a \<^verbatim>\<open>/document_closing\<close>
  message, which puts \<open>last_ablonline\<close> back to 0, the monitor passes at times 10 and 20
  leave the window online although nothing arrived between them.
\<close>

theorem liveness_counterexample:
  "liveness (snd (osc_structural_mismatch_handler [OInt 0, OInt 1]
               (snd (osc_ablonline_handler 1 [OInt 0] example_hw)))) 0 = (1, False)
   \<and> liveness (monitor_pass 20 (monitor_pass 10
         (snd (osc_document_closing_handler [OInt 0]
            (snd (osc_ablonline_handler 1 [OInt 0] example_hw)))))) 0 = (0, False)"
  by code_simp

subsection \<open>Malformed messages and unconfigured orders\<close>





subsection \<open>Timed restores\<close>

lemma flash_restore_reads_cache:
  assumes "deck_states h order = Some st"
  shows "renders (fire_timer (FlashRestore dk order k) h) =
           restore_key_image dk k (st\<lparr>flash_until := (flash_until st)(k := None)\<rparr>) (renders h)"
  using assms by (simp add: fire_timer_def Let_def put_cs_state_def)

text \<open>
  C6 at a failing input. Key 2 is cached as \<open>(A, 5, -3)\<close> when \<^verbatim>\<open>/track_stopped\<close> starts the
  stop-indicator timer; a snapshot then overwrites the entry with \<open>(B, 7, -2)\<close>. When the
  timer fires, the image it composes carries the label, colour and progress bound at the
  start of the timer, not the entry the cache holds now.
\<close>

theorem stop_restore_draws_stale_values:
  "cache_entry stop_then_snapshot 0 2 = Some (''B'', 7, - 2)
   \<and> hd (timers stop_then_snapshot) = (4, StopRestore example_deck 0 2 ''A'' (0, 0, 5) (Some (- 3)))
   \<and> last (renders (fire_timer (snd (hd (timers stop_then_snapshot))) stop_then_snapshot))
       = \<lparr> r_deck = ''XL'', r_key = 2, r_label = ''A'', r_color = (0, 0, 5),
           r_progress = Some (- 3), r_background = None, r_flash = False \<rparr>"
  by code_simp

end
